theory Spec2Isabelle
  imports Main
begin

section \<open>AquesTalkTtsCmd: a shallow embedding of the command-line driver\<close>

text \<open>
  The source is \<^verbatim>\<open>src/tools/aquestalk_tts_cmd/AquesTalkTtsCmd.cpp\<close>. A \<^verbatim>\<open>std::string\<close> is a
  byte sequence, modelled as \<^typ>\<open>string\<close> (a list of 8-bit characters). Pointers
  (\<^verbatim>\<open>HMODULE\<close>, \<^verbatim>\<open>void *\<close>, function pointers, the waveform buffer) are natural numbers
  with \<open>0\<close> for the null pointer. A C \<^verbatim>\<open>int\<close> is an \<^typ>\<open>int\<close>; the program does no
  arithmetic on them, and the range of \<^verbatim>\<open>std::stoi\<close> is written out.
  A \<^verbatim>\<open>fs::path\<close> is represented by its UTF-8 text, so that \<^verbatim>\<open>widen_utf8\<close> and
  \<^verbatim>\<open>utf8_path\<close> are identities of the model.
\<close>

subsection \<open>Characters and strings\<close>

type_synonym path = string

definition NUL :: char where "NUL = CHR 0x00"
definition TAB :: char where "TAB = CHR 0x09"
definition LF :: char where "LF = CHR 0x0A"
definition VT :: char where "VT = CHR 0x0B"
definition FF :: char where "FF = CHR 0x0C"
definition CR :: char where "CR = CHR 0x0D"
definition SP :: char where "SP = CHR '' ''"

text \<open>\<^verbatim>\<open>s.c_str()\<close> as the callee reads it, and \<^verbatim>\<open>std::string(buf.data())\<close>: the bytes
  before the first NUL.\<close>

definition c_str :: "string \<Rightarrow> string" where
  "c_str s = takeWhile (\<lambda>c. c \<noteq> NUL) s"

text \<open>The lambda \<^verbatim>\<open>is_space\<close> of \<^verbatim>\<open>trim\<close> (line 44).\<close>

definition is_space :: "char \<Rightarrow> bool" where
  "is_space c \<longleftrightarrow> c = SP \<or> c = TAB \<or> c = CR \<or> c = LF"

text \<open>The first loop of \<^verbatim>\<open>trim\<close> (line 45): erase the front while it is a space.\<close>

fun trim_front :: "string \<Rightarrow> string" where
  "trim_front [] = []"
| "trim_front (c # cs) = (if is_space c then trim_front cs else c # cs)"

text \<open>The second loop of \<^verbatim>\<open>trim\<close> (line 46): pop the back while it is a space.\<close>

function trim_back :: "string \<Rightarrow> string" where
  "trim_back s = (if s \<noteq> [] \<and> is_space (last s) then trim_back (butlast s) else s)"
  by pat_completeness auto
termination
  by (relation "measure length") auto

declare trim_back.simps [simp del]

definition trim :: "string \<Rightarrow> string" where
  "trim s = trim_back (trim_front s)"

text \<open>\<^verbatim>\<open>split_lines\<close> (lines 50-65): the loop over the characters, with the vector
  \<open>out\<close> and the current line \<open>cur\<close> as accumulators.\<close>

fun split_loop :: "string \<Rightarrow> string list \<Rightarrow> string \<Rightarrow> string list" where
  "split_loop [] out cur = out @ [cur]"
| "split_loop (c # cs) out cur =
     (if c = CR then split_loop cs out cur
      else if c = LF then split_loop cs (out @ [cur]) []
      else split_loop cs out (cur @ [c]))"

definition split_lines :: "string \<Rightarrow> string list" where
  "split_lines s = split_loop s [] []"

subsection \<open>Command-line arguments\<close>

text \<open>\<^verbatim>\<open>get_arg_value\<close> (lines 176-182): \<open>--key value\<close> or \<open>--key=value\<close>, first match
  in argument order.\<close>

fun get_arg_value :: "string list \<Rightarrow> string \<Rightarrow> string option" where
  "get_arg_value [] key = None"
| "get_arg_value (a # rest) key =
     (if a = key \<and> rest \<noteq> [] then Some (hd rest)
      else if take (length key + 1) a = key @ ''='' then Some (drop (length key + 1) a)
      else get_arg_value rest key)"

text \<open>\<^verbatim>\<open>has_flag\<close> (lines 184-189).\<close>

fun has_flag :: "string list \<Rightarrow> string \<Rightarrow> bool" where
  "has_flag [] key = False"
| "has_flag (a # rest) key = (if a = key then True else has_flag rest key)"

definition value_or :: "'a option \<Rightarrow> 'a \<Rightarrow> 'a" where
  "value_or v d = (case v of None \<Rightarrow> d | Some x \<Rightarrow> x)"

text \<open>\<^verbatim>\<open>std::stoi\<close> of the C++ standard library (base 10): leading \<^verbatim>\<open>isspace\<close> characters
  are skipped, one optional sign is read, then the longest run of digits; anything after
  it is ignored. No digit throws \<^verbatim>\<open>invalid_argument\<close>, a value outside the 32-bit
  \<^verbatim>\<open>int\<close> throws \<^verbatim>\<open>out_of_range\<close>; both are \<open>None\<close> here.\<close>

definition isspace :: "char \<Rightarrow> bool" where
  "isspace c \<longleftrightarrow> c = SP \<or> c = TAB \<or> c = LF \<or> c = VT \<or> c = FF \<or> c = CR"

definition is_digit :: "char \<Rightarrow> bool" where
  "is_digit c \<longleftrightarrow> (48::nat) \<le> of_char c \<and> (of_char c :: nat) \<le> 57"

fun digits_value :: "int \<Rightarrow> string \<Rightarrow> int" where
  "digits_value acc [] = acc"
| "digits_value acc (c # cs) = digits_value (10 * acc + (int (of_char c :: nat) - 48)) cs"

definition stoi :: "string \<Rightarrow> int option" where
  "stoi s =
     (let t = dropWhile isspace s;
          neg = (t \<noteq> [] \<and> hd t = CHR ''-'');
          u = (if t \<noteq> [] \<and> (hd t = CHR ''-'' \<or> hd t = CHR ''+'') then tl t else t);
          ds = takeWhile is_digit u;
          v = (if neg then - digits_value 0 ds else digits_value 0 ds)
      in if ds = [] then None
         else if v < - 2147483648 \<or> 2147483647 < v then None
         else Some v)"

text \<open>Lines 226-234: the default of 100, or the parsed value; \<open>None\<close> is the
  \<^verbatim>\<open>catch (...)\<close> branch.\<close>

definition parse_speed :: "string list \<Rightarrow> int option" where
  "parse_speed args =
     (case get_arg_value args ''--speed'' of None \<Rightarrow> Some 100 | Some s \<Rightarrow> stoi s)"

text \<open>Lines 235-236.\<close>

definition clamp_speed :: "int \<Rightarrow> int" where
  "clamp_speed speed0 =
     (let speed = (if speed0 < 50 then 50 else speed0)
      in if speed > 300 then 300 else speed)"

text \<open>Lines 224-225.\<close>

definition encoding_of :: "string list \<Rightarrow> string" where
  "encoding_of args = value_or (get_arg_value args ''--encoding'') ''utf8''"

definition use_sjis_of :: "string list \<Rightarrow> bool" where
  "use_sjis_of args =
     (let encoding = encoding_of args
      in encoding = ''sjis'' \<or> encoding = ''shiftjis'' \<or> encoding = ''cp932'')"

subsection \<open>The world outside the program\<close>

text \<open>
  Everything the driver calls and does not define: the process arguments and environment,
  the standard input, \<^verbatim>\<open>std::filesystem\<close>, the Windows loader and the entry points of the
  two native components. Each is a field of the record \<open>world\<close>, so that a theorem about
  \<open>main\<close> holds for every behaviour of the components. The conversion entry points are
  called once per line; their answer may depend on the number of conversions done before
  in the run, which is their first argument.
\<close>

record world =
  argv :: "string option list"
    \<comment> \<open>\<open>None\<close> is a null \<^verbatim>\<open>argv[i]\<close>\<close>
  getenv_str :: "string \<Rightarrow> string"
    \<comment> \<open>lines 191-198: the empty string when the variable is unset\<close>
  read_all_stdin :: string
  exe_dir :: path
    \<comment> \<open>lines 67-73, read from the operating system\<close>
  temp_wav_path :: path
    \<comment> \<open>lines 200-211; the placeholder file \<^verbatim>\<open>GetTempFileNameW\<close> creates is not traced\<close>
  fs_exists :: "path \<Rightarrow> bool"
    \<comment> \<open>\<^verbatim>\<open>fs::exists\<close>, taken to return\<close>
  fs_append :: "path \<Rightarrow> string \<Rightarrow> path"
    \<comment> \<open>\<^verbatim>\<open>operator/\<close> of \<^verbatim>\<open>fs::path\<close>\<close>
  fs_has_parent_path :: "path \<Rightarrow> bool"
  fs_parent_path :: "path \<Rightarrow> path"
  ofstream_open :: "path \<Rightarrow> bool"
    \<comment> \<open>whether \<^verbatim>\<open>std::ofstream ofs(out_path, std::ios::binary)\<close> opens\<close>
  LoadLibraryW :: "path \<Rightarrow> nat"
  GetProcAddress :: "nat \<Rightarrow> string \<Rightarrow> nat"
  AqKanji2Koe_Create :: "string \<Rightarrow> nat \<times> int"
    \<comment> \<open>the handle and the final value of \<^verbatim>\<open>err\<close>\<close>
  AqKanji2Koe_Convert_utf8 :: "nat \<Rightarrow> string \<Rightarrow> int \<times> string"
    \<comment> \<open>the return code and the content of the 8192-byte buffer, zero-filled before\<close>
  AqKanji2Koe_Convert_sjis :: "nat \<Rightarrow> string \<Rightarrow> int \<times> string"
  AquesTalk_Synthe :: "string \<Rightarrow> int \<Rightarrow> nat \<times> int"
    \<comment> \<open>the buffer pointer and the final value of \<^verbatim>\<open>wav_size\<close>\<close>
  AquesTalk_Synthe_Utf8 :: "string \<Rightarrow> int \<Rightarrow> nat \<times> int"

text \<open>The messages written to the standard error stream, one constructor per message
  of the source.\<close>

datatype diagnostic =
    Usage
  | Invalid_speed
  | Root_not_detected
  | Missing_SDK_files path path path
  | Load_kanji2koe_failed
  | Load_aquestalk_failed string
  | Create_failed int
  | No_input_text
  | Convert_failed int
  | Empty_koe
  | Synthe_failed int
  | Open_output_failed

text \<open>What a run does to the outside, in order. A call event carries the arguments and
  what the callee returned.\<close>

datatype event =
    Stderr diagnostic
  | Stdout path
  | Ev_LoadLibrary path nat
  | Ev_FreeLibrary nat
  | Ev_K2k_SetDevKey string
  | Ev_Tk_SetDevKey string
  | Ev_Tk_SetUsrKey string
  | Ev_Create string nat int
  | Ev_Release nat
  | Ev_ConvertUtf8 nat string int
  | Ev_ConvertSjis nat string int
  | Ev_Synthe string int nat int
  | Ev_SyntheUtf8 string int nat int
  | Ev_FreeWave nat
  | Ev_create_directories path
  | Ev_open_output path bool
  | Ev_write_output path nat int

definition widen_utf8 :: "string \<Rightarrow> path" where
  "widen_utf8 s = s"

definition utf8_path :: "path \<Rightarrow> string" where
  "utf8_path p = p"

text \<open>\<^verbatim>\<open>find_aquestalk_root_from\<close> (lines 75-84); the first argument counts the
  iterations left of the six.\<close>

fun find_root_loop :: "world \<Rightarrow> nat \<Rightarrow> path \<Rightarrow> path option" where
  "find_root_loop w 0 p = None"
| "find_root_loop w (Suc n) p =
     (let candidate = fs_append w p ''aquestalk''
      in if fs_exists w candidate then Some candidate
         else if \<not> fs_has_parent_path w p then None
         else find_root_loop w n (fs_parent_path w p))"

definition find_aquestalk_root_from :: "world \<Rightarrow> path \<Rightarrow> path option" where
  "find_aquestalk_root_from w start = find_root_loop w 6 start"

subsection \<open>The capability loaders\<close>

record AqKanji2KoeApi =
  k2k_mod :: nat
  k2k_Create :: nat
  k2k_Release :: nat
  k2k_ConvertUtf8 :: nat
  k2k_ConvertSjis :: nat
  k2k_SetDevKey :: nat

record AquesTalkApi =
  tk_mod :: nat
  tk_Synthe :: nat
  tk_SyntheUtf8 :: nat
  tk_FreeWave :: nat
  tk_SetDevKey :: nat
  tk_SetUsrKey :: nat

text \<open>\<^verbatim>\<open>load_kanji2koe\<close> (lines 105-121), with the loader calls it makes.\<close>

definition load_kanji2koe :: "world \<Rightarrow> path \<Rightarrow> AqKanji2KoeApi option \<times> event list" where
  "load_kanji2koe w dll_path =
     (let m = LoadLibraryW w dll_path
      in if m = 0 then (None, [Ev_LoadLibrary dll_path m])
         else
           let api = \<lparr>k2k_mod = m,
                      k2k_Create = GetProcAddress w m ''AqKanji2Koe_Create'',
                      k2k_Release = GetProcAddress w m ''AqKanji2Koe_Release'',
                      k2k_ConvertUtf8 = GetProcAddress w m ''AqKanji2Koe_Convert_utf8'',
                      k2k_ConvertSjis = GetProcAddress w m ''AqKanji2Koe_Convert_sjis'',
                      k2k_SetDevKey = GetProcAddress w m ''AqKanji2Koe_SetDevKey''\<rparr>
           in if k2k_Create api = 0 \<or> k2k_Release api = 0 \<or> k2k_ConvertUtf8 api = 0
                 \<or> k2k_ConvertSjis api = 0 \<or> k2k_SetDevKey api = 0
              then (None, [Ev_LoadLibrary dll_path m, Ev_FreeLibrary (k2k_mod api)])
              else (Some api, [Ev_LoadLibrary dll_path m]))"

text \<open>\<^verbatim>\<open>load_aquestalk\<close> (lines 142-158).\<close>

definition load_aquestalk :: "world \<Rightarrow> path \<Rightarrow> AquesTalkApi option \<times> event list" where
  "load_aquestalk w dll_path =
     (let m = LoadLibraryW w dll_path
      in if m = 0 then (None, [Ev_LoadLibrary dll_path m])
         else
           let api = \<lparr>tk_mod = m,
                      tk_Synthe = GetProcAddress w m ''AquesTalk_Synthe'',
                      tk_SyntheUtf8 = GetProcAddress w m ''AquesTalk_Synthe_Utf8'',
                      tk_FreeWave = GetProcAddress w m ''AquesTalk_FreeWave'',
                      tk_SetDevKey = GetProcAddress w m ''AquesTalk_SetDevKey'',
                      tk_SetUsrKey = GetProcAddress w m ''AquesTalk_SetUsrKey''\<rparr>
           in if tk_Synthe api = 0 \<or> tk_SyntheUtf8 api = 0 \<or> tk_FreeWave api = 0
                 \<or> tk_SetDevKey api = 0 \<or> tk_SetUsrKey api = 0
              then (None, [Ev_LoadLibrary dll_path m, Ev_FreeLibrary (tk_mod api)])
              else (Some api, [Ev_LoadLibrary dll_path m]))"

subsection \<open>The driver\<close>

text \<open>The loop of lines 312-333. \<open>i\<close> counts the conversions done so far, \<open>koe_all\<close> is
  the stream assembled so far. The result is the failing return code or the stream,
  with the conversion calls made.\<close>

definition convert_call :: "world \<Rightarrow> bool \<Rightarrow> nat \<Rightarrow> string \<Rightarrow> int \<times> string" where
  "convert_call w use_sjis i line =
     (if use_sjis then AqKanji2Koe_Convert_sjis w i (c_str line)
      else AqKanji2Koe_Convert_utf8 w i (c_str line))"

definition convert_event :: "bool \<Rightarrow> nat \<Rightarrow> string \<Rightarrow> int \<Rightarrow> event" where
  "convert_event use_sjis h line rc =
     (if use_sjis then Ev_ConvertSjis h (c_str line) rc else Ev_ConvertUtf8 h (c_str line) rc)"

fun convert_loop ::
  "world \<Rightarrow> bool \<Rightarrow> nat \<Rightarrow> nat \<Rightarrow> string list \<Rightarrow> string \<Rightarrow> (int + string) \<times> event list" where
  "convert_loop w use_sjis h i [] koe_all = (Inr koe_all, [])"
| "convert_loop w use_sjis h i (line_raw # rest) koe_all =
     (let line = trim line_raw
      in if line = [] then convert_loop w use_sjis h i rest koe_all
         else
           let (rc, koe_buf) = convert_call w use_sjis i line;
               ev = convert_event use_sjis h line rc
           in if rc \<noteq> 0 then (Inl rc, [ev])
              else
                let koe_part = trim (c_str koe_buf);
                    (r, evs) =
                      (if koe_part = [] then convert_loop w use_sjis h (Suc i) rest koe_all
                       else convert_loop w use_sjis h (Suc i) rest
                              ((if koe_all \<noteq> [] then koe_all @ ''/'' else koe_all) @ koe_part))
                in (r, ev # evs))"

text \<open>Lines 342-371: synthesis, the output file, the release of the buffer.\<close>

definition synthesize_and_write ::
  "world \<Rightarrow> bool \<Rightarrow> int \<Rightarrow> path \<Rightarrow> string \<Rightarrow> int \<times> event list" where
  "synthesize_and_write w use_sjis speed out_path koe_all =
     (let (wav, wav_size) =
            (if use_sjis then AquesTalk_Synthe w (c_str koe_all) speed
             else AquesTalk_Synthe_Utf8 w (c_str koe_all) speed);
          ev = (if use_sjis then Ev_Synthe (c_str koe_all) speed wav wav_size
                else Ev_SyntheUtf8 (c_str koe_all) speed wav wav_size)
      in if wav = 0 \<or> wav_size \<le> 0 then (5, [ev, Stderr (Synthe_failed wav_size)])
         else
           let mk = Ev_create_directories (fs_parent_path w out_path)
           in if \<not> ofstream_open w out_path
              then (6, [ev, mk, Ev_open_output out_path False, Ev_FreeWave wav,
                        Stderr Open_output_failed])
              else (0, [ev, mk, Ev_open_output out_path True,
                        Ev_write_output out_path wav wav_size, Ev_FreeWave wav,
                        Stdout (utf8_path out_path)]))"

text \<open>Lines 294-340, followed by the synthesis: the conversion session from its creation
  to its release.\<close>

definition convert_session ::
  "world \<Rightarrow> bool \<Rightarrow> int \<Rightarrow> path \<Rightarrow> path \<Rightarrow> int \<times> event list" where
  "convert_session w use_sjis speed out_path k2k_dic =
     (let dic_utf8 = utf8_path k2k_dic;
          (h, err) = AqKanji2Koe_Create w (c_str dic_utf8);
          created = Ev_Create (c_str dic_utf8) h err
      in if h = 0 then (4, [created, Stderr (Create_failed err)])
         else
           let input = trim (read_all_stdin w)
           in if input = [] then (2, [created, Stderr No_input_text, Ev_Release h])
              else
                let lines = split_lines input
                in (case convert_loop w use_sjis h 0 lines [] of
                      (Inl rc, evs) \<Rightarrow>
                        (4, created # evs @ [Stderr (Convert_failed rc), Ev_Release h])
                    | (Inr koe_all, evs) \<Rightarrow>
                        if koe_all = []
                        then (4, created # evs @ [Ev_Release h, Stderr Empty_koe])
                        else
                          let (code, evs2) =
                                synthesize_and_write w use_sjis speed out_path koe_all
                          in (code, created # evs @ [Ev_Release h] @ evs2)))"

text \<open>Lines 262-292: the three paths, the pre-flight check, the two loaders and the
  licence keys.\<close>

definition k2k_dll_of :: "world \<Rightarrow> path \<Rightarrow> path" where
  "k2k_dll_of w aq_root =
     fs_append w (fs_append w (fs_append w (fs_append w aq_root ''aqk2k_win_413'')
       ''aqk2k_win'') ''lib64'') ''AqKanji2Koe.dll''"

definition k2k_dic_of :: "world \<Rightarrow> path \<Rightarrow> path" where
  "k2k_dic_of w aq_root =
     fs_append w (fs_append w (fs_append w aq_root ''aqk2k_win_413'') ''aqk2k_win'') ''aq_dic''"

definition tk_dll_of :: "world \<Rightarrow> path \<Rightarrow> string \<Rightarrow> path" where
  "tk_dll_of w aq_root voice =
     fs_append w (fs_append w (fs_append w (fs_append w (fs_append w aq_root ''aqtk1_win_200'')
       ''aqtk1_win'') ''lib64'') voice) ''AquesTalk.dll''"

definition set_keys :: "string \<Rightarrow> string \<Rightarrow> event list" where
  "set_keys dev_key usr_key =
     (if dev_key \<noteq> [] then [Ev_K2k_SetDevKey (c_str dev_key), Ev_Tk_SetDevKey (c_str dev_key)]
      else [])
     @ (if usr_key \<noteq> [] then [Ev_Tk_SetUsrKey (c_str usr_key)] else [])"

definition load_and_run ::
  "world \<Rightarrow> bool \<Rightarrow> int \<Rightarrow> string \<Rightarrow> string \<Rightarrow> string \<Rightarrow> path \<Rightarrow> path \<Rightarrow> int \<times> event list" where
  "load_and_run w use_sjis speed voice dev_key usr_key out_path aq_root =
     (let k2k_dll = k2k_dll_of w aq_root;
          k2k_dic = k2k_dic_of w aq_root;
          tk_dll = tk_dll_of w aq_root voice
      in if \<not> fs_exists w k2k_dll \<or> \<not> fs_exists w k2k_dic \<or> \<not> fs_exists w tk_dll
         then (2, [Stderr (Missing_SDK_files (utf8_path k2k_dll) (utf8_path k2k_dic)
                             (utf8_path tk_dll))])
         else
           case load_kanji2koe w k2k_dll of
             (None, evs1) \<Rightarrow> (3, evs1 @ [Stderr Load_kanji2koe_failed])
           | (Some k2k_api, evs1) \<Rightarrow>
               (case load_aquestalk w tk_dll of
                  (None, evs2) \<Rightarrow> (3, evs1 @ evs2 @ [Stderr (Load_aquestalk_failed voice)])
                | (Some tk_api, evs2) \<Rightarrow>
                    let (code, evs3) = convert_session w use_sjis speed out_path k2k_dic
                    in (code, evs1 @ evs2 @ set_keys dev_key usr_key @ evs3)))"

text \<open>Lines 214-216: the argument vector, a null entry read as the empty string.\<close>

definition args_of :: "world \<Rightarrow> string list" where
  "args_of w = map (\<lambda>a. case a of None \<Rightarrow> [] | Some s \<Rightarrow> s) (argv w)"

text \<open>Line 223.\<close>

definition voice_of :: "string list \<Rightarrow> string" where
  "voice_of args = value_or (get_arg_value args ''--voice'') ''f1''"

text \<open>Lines 238-241: a key of the command line, or else of the environment.\<close>

definition dev_key_of :: "world \<Rightarrow> string list \<Rightarrow> string" where
  "dev_key_of w args =
     value_or (get_arg_value args ''--dev-key'') (getenv_str w ''AQUEST_DEV_KEY'')"

definition usr_key_of :: "world \<Rightarrow> string list \<Rightarrow> string" where
  "usr_key_of w args =
     value_or (get_arg_value args ''--usr-key'') (getenv_str w ''AQUEST_USR_KEY'')"

text \<open>Lines 243-248.\<close>

definition out_path_of :: "world \<Rightarrow> string list \<Rightarrow> path" where
  "out_path_of w args =
     (case get_arg_value args ''--out'' of
        Some o1 \<Rightarrow> widen_utf8 o1
      | None \<Rightarrow> temp_wav_path w)"

text \<open>Lines 250-260: the root given on the command line, or the one found from the
  directory of the executable; \<open>None\<close> is the exit of line 257.\<close>

definition resolve_root :: "world \<Rightarrow> string list \<Rightarrow> path option" where
  "resolve_root w args =
     (case get_arg_value args ''--aquestalk-root'' of
        Some r \<Rightarrow> Some (widen_utf8 r)
      | None \<Rightarrow> find_aquestalk_root_from w (exe_dir w))"

text \<open>\<^verbatim>\<open>main\<close> (lines 213-372): the exit status and what the run did.\<close>

definition main :: "world \<Rightarrow> int \<times> event list" where
  "main w =
     (let args = args_of w
      in if has_flag args ''--help'' \<or> has_flag args ''-h'' then (0, [Stderr Usage])
         else
           let voice = voice_of args;
               use_sjis = use_sjis_of args
           in case parse_speed args of
                None \<Rightarrow> (2, [Stderr Invalid_speed])
              | Some speed0 \<Rightarrow>
                  let speed = clamp_speed speed0;
                      dev_key = dev_key_of w args;
                      usr_key = usr_key_of w args;
                      out_path = out_path_of w args;
                      root = resolve_root w args
                  in (case root of
                        None \<Rightarrow> (2, [Stderr Root_not_detected])
                      | Some aq_root \<Rightarrow>
                          load_and_run w use_sjis speed voice dev_key usr_key out_path aq_root))"

subsection \<open>Observations on a run\<close>

text \<open>Classes of events, to count and to locate calls in the trace of a run.\<close>

fun is_loader_event :: "event \<Rightarrow> bool" where
  "is_loader_event (Ev_LoadLibrary p m) = True"
| "is_loader_event (Ev_FreeLibrary m) = True"
| "is_loader_event (Ev_K2k_SetDevKey k) = True"
| "is_loader_event (Ev_Tk_SetDevKey k) = True"
| "is_loader_event (Ev_Tk_SetUsrKey k) = True"
| "is_loader_event _ = False"

fun is_load :: "event \<Rightarrow> bool" where
  "is_load (Ev_LoadLibrary p m) = True"
| "is_load _ = False"

fun is_setup_diagnostic :: "diagnostic \<Rightarrow> bool" where
  "is_setup_diagnostic Usage = True"
| "is_setup_diagnostic Invalid_speed = True"
| "is_setup_diagnostic Root_not_detected = True"
| "is_setup_diagnostic (Missing_SDK_files a b c) = True"
| "is_setup_diagnostic Load_kanji2koe_failed = True"
| "is_setup_diagnostic (Load_aquestalk_failed v) = True"
| "is_setup_diagnostic _ = False"

fun is_created :: "event \<Rightarrow> bool" where
  "is_created (Ev_Create dic h err) = (h \<noteq> 0)"
| "is_created _ = False"

fun is_release :: "event \<Rightarrow> bool" where
  "is_release (Ev_Release h) = True"
| "is_release _ = False"

fun is_convert :: "event \<Rightarrow> bool" where
  "is_convert (Ev_ConvertUtf8 h line rc) = True"
| "is_convert (Ev_ConvertSjis h line rc) = True"
| "is_convert _ = False"

fun is_failed_convert :: "event \<Rightarrow> bool" where
  "is_failed_convert (Ev_ConvertUtf8 h line rc) = (rc \<noteq> 0)"
| "is_failed_convert (Ev_ConvertSjis h line rc) = (rc \<noteq> 0)"
| "is_failed_convert _ = False"

fun is_synthesize :: "event \<Rightarrow> bool" where
  "is_synthesize (Ev_Synthe koe speed wav n) = True"
| "is_synthesize (Ev_SyntheUtf8 koe speed wav n) = True"
| "is_synthesize _ = False"

fun synthesized_buffer :: "event \<Rightarrow> bool" where
  "synthesized_buffer (Ev_Synthe koe speed wav n) = (wav \<noteq> 0)"
| "synthesized_buffer (Ev_SyntheUtf8 koe speed wav n) = (wav \<noteq> 0)"
| "synthesized_buffer _ = False"

fun synthesized_wave :: "event \<Rightarrow> bool" where
  "synthesized_wave (Ev_Synthe koe speed wav n) = (wav \<noteq> 0 \<and> 0 < n)"
| "synthesized_wave (Ev_SyntheUtf8 koe speed wav n) = (wav \<noteq> 0 \<and> 0 < n)"
| "synthesized_wave _ = False"

fun is_freewave :: "event \<Rightarrow> bool" where
  "is_freewave (Ev_FreeWave wav) = True"
| "is_freewave _ = False"

fun is_output :: "event \<Rightarrow> bool" where
  "is_output (Ev_open_output p ok) = True"
| "is_output (Ev_write_output p wav n) = True"
| "is_output _ = False"

fun is_legacy_call :: "event \<Rightarrow> bool" where
  "is_legacy_call (Ev_ConvertSjis h line rc) = True"
| "is_legacy_call (Ev_Synthe koe speed wav n) = True"
| "is_legacy_call _ = False"

fun is_utf8_call :: "event \<Rightarrow> bool" where
  "is_utf8_call (Ev_ConvertUtf8 h line rc) = True"
| "is_utf8_call (Ev_SyntheUtf8 koe speed wav n) = True"
| "is_utf8_call _ = False"

text \<open>The speed a synthesis call was given.\<close>

fun synthesis_speed :: "event \<Rightarrow> int option" where
  "synthesis_speed (Ev_Synthe koe speed wav n) = Some speed"
| "synthesis_speed (Ev_SyntheUtf8 koe speed wav n) = Some speed"
| "synthesis_speed _ = None"

text \<open>The entry points each loader resolves, in the order of the source.\<close>

definition k2k_symbols :: "string list" where
  "k2k_symbols = [''AqKanji2Koe_Create'', ''AqKanji2Koe_Release'', ''AqKanji2Koe_Convert_utf8'',
                  ''AqKanji2Koe_Convert_sjis'', ''AqKanji2Koe_SetDevKey'']"

definition tk_symbols :: "string list" where
  "tk_symbols = [''AquesTalk_Synthe'', ''AquesTalk_Synthe_Utf8'', ''AquesTalk_FreeWave'',
                 ''AquesTalk_SetDevKey'', ''AquesTalk_SetUsrKey'']"

subsection \<open>The phoneme stream as the specification describes it\<close>

text \<open>The specification's account of the stream, to compare with the loop: the lines
  that are not empty once trimmed are converted in order, the results that are not empty
  once trimmed are the parts, and the stream is the parts with one \<open>/\<close> between
  neighbours.\<close>

definition nonblank_lines :: "string list \<Rightarrow> string list" where
  "nonblank_lines lines = filter (\<lambda>l. l \<noteq> []) (map trim lines)"

definition converted_parts :: "world \<Rightarrow> bool \<Rightarrow> nat \<Rightarrow> string list \<Rightarrow> string list" where
  "converted_parts w use_sjis i lines =
     filter (\<lambda>p. p \<noteq> [])
       (map (\<lambda>(j, line). trim (c_str (snd (convert_call w use_sjis j line))))
          (enumerate i (nonblank_lines lines)))"

fun join_pause :: "string list \<Rightarrow> string" where
  "join_pause [] = []"
| "join_pause [p] = p"
| "join_pause (p # q # ps) = p @ ''/'' @ join_pause (q # ps)"

text \<open>Two neighbouring occurrences of \<open>c\<close> in a string.\<close>

fun doubled :: "char \<Rightarrow> string \<Rightarrow> bool" where
  "doubled c (x # y # zs) = ((x = c \<and> y = c) \<or> doubled c (y # zs))"
| "doubled c zs = False"

subsection \<open>A concrete installation\<close>

text \<open>A world in which every file exists, both libraries load with all their symbols,
  the converter echoes its input line and the synthesiser returns a buffer of 44 bytes.
  The concrete runs below are variations of it.\<close>

definition sdk_world :: world where
  "sdk_world =
     \<lparr>argv = [Some ''aquestalk_tts_cmd.exe'', Some ''--aquestalk-root'', Some ''C:/aq'',
              Some ''--out'', Some ''out.wav''],
      getenv_str = (\<lambda>name. []),
      read_all_stdin = ''line one'' @ [LF] @ ''line two'',
      exe_dir = ''C:/bin'',
      temp_wav_path = ''C:/tmp/aqt1.wav'',
      fs_exists = (\<lambda>p. True),
      fs_append = (\<lambda>p c. p @ ''/'' @ c),
      fs_has_parent_path = (\<lambda>p. CHR ''/'' \<in> set p),
      fs_parent_path = (\<lambda>p. rev (tl (dropWhile (\<lambda>c. c \<noteq> CHR ''/'') (rev p)))),
      ofstream_open = (\<lambda>p. True),
      LoadLibraryW = (\<lambda>p. 7),
      GetProcAddress = (\<lambda>m name. Suc (length name)),
      AqKanji2Koe_Create = (\<lambda>dic. (11, 0)),
      AqKanji2Koe_Convert_utf8 = (\<lambda>i line. (0, line)),
      AqKanji2Koe_Convert_sjis = (\<lambda>i line. (0, line)),
      AquesTalk_Synthe = (\<lambda>koe speed. (99, 44)),
      AquesTalk_Synthe_Utf8 = (\<lambda>koe speed. (99, 44))\<rparr>"

text \<open>The second conversion of the run fails with the component's code 105.\<close>

definition failing_second_world :: world where
  "failing_second_world =
     sdk_world\<lparr>AqKanji2Koe_Convert_utf8 := (\<lambda>i line. if i = 1 then (105, []) else (0, line))\<rparr>"

text \<open>Runs with the speeds 49 and 301 on the command line.\<close>

definition slow_world :: world where
  "slow_world =
     sdk_world\<lparr>argv := [Some ''aquestalk_tts_cmd.exe'', Some ''--aquestalk-root'', Some ''C:/aq'',
                         Some ''--speed'', Some ''49'']\<rparr>"

definition fast_world :: world where
  "fast_world =
     sdk_world\<lparr>argv := [Some ''aquestalk_tts_cmd.exe'', Some ''--aquestalk-root=C:/aq'',
                         Some ''--speed=301'']\<rparr>"

text \<open>A run with a misspelt encoding, and one with a legacy encoding.\<close>

definition misspelt_encoding_world :: world where
  "misspelt_encoding_world =
     sdk_world\<lparr>argv := [Some ''aquestalk_tts_cmd.exe'', Some ''--aquestalk-root'', Some ''C:/aq'',
                         Some ''--encoding'', Some ''utf-8'', Some ''--out'', Some ''out.wav'']\<rparr>"

definition cp932_world :: world where
  "cp932_world =
     sdk_world\<lparr>argv := [Some ''aquestalk_tts_cmd.exe'', Some ''--aquestalk-root'', Some ''C:/aq'',
                         Some ''--encoding=cp932'', Some ''--out'', Some ''out.wav'']\<rparr>"

text \<open>A text-to-phoneme library without its \<^verbatim>\<open>AqKanji2Koe_SetDevKey\<close> entry point.\<close>

definition half_bound_world :: world where
  "half_bound_world =
     sdk_world\<lparr>GetProcAddress :=
       (\<lambda>m name. if name = ''AqKanji2Koe_SetDevKey'' then 0 else Suc (length name))\<rparr>"

text \<open>The converter answers the second conversion of the run with blanks only.\<close>

definition pausing_world :: world where
  "pausing_world =
     sdk_world\<lparr>AqKanji2Koe_Convert_utf8 :=
       (\<lambda>i line. if i = 1 then (0, ''  '' @ [LF]) else (0, line @ [LF]))\<rparr>"

text \<open>Only the voice's synthesis library is missing from the installation.\<close>

definition missing_voice_world :: world where
  "missing_voice_world =
     sdk_world\<lparr>fs_exists :=
       (\<lambda>p. p \<noteq> ''C:/aq/aqtk1_win_200/aqtk1_win/lib64/f1/AquesTalk.dll'')\<rparr>"

text \<open>Nothing on the standard input; the same with a converter that cannot create its
  session.\<close>

definition no_input_world :: world where
  "no_input_world = sdk_world\<lparr>read_all_stdin := []\<rparr>"

definition create_failing_world :: world where
  "create_failing_world = no_input_world\<lparr>AqKanji2Koe_Create := (\<lambda>dic. (0, 103))\<rparr>"

text \<open>Two lines of blanks and tabs on the standard input.\<close>

definition blank_lines_world :: world where
  "blank_lines_world = sdk_world\<lparr>read_all_stdin := ''  '' @ [LF] @ [TAB, SP] @ [LF]\<rparr>"

text \<open>One line holding a form feed, which \<^verbatim>\<open>isspace\<close> counts as white space and \<open>trim\<close>
  does not; the converter finds nothing to pronounce in it.\<close>

definition form_feed_world :: world where
  "form_feed_world =
     sdk_world\<lparr>read_all_stdin := [FF], AqKanji2Koe_Convert_utf8 := (\<lambda>i line. (0, []))\<rparr>"

text \<open>The synthesiser returns a buffer and reports the size 0.\<close>

definition empty_buffer_world :: world where
  "empty_buffer_world = sdk_world\<lparr>AquesTalk_Synthe_Utf8 := (\<lambda>koe speed. (99, 0))\<rparr>"

text \<open>The output file cannot be opened.\<close>

definition unwritable_world :: world where
  "unwritable_world = sdk_world\<lparr>ofstream_open := (\<lambda>p. False)\<rparr>"

section \<open>Verified properties\<close>

subsection \<open>Line splitting\<close>

lemma split_loop_nonempty: "split_loop s out cur \<noteq> []"
  by (induction s out cur rule: split_loop.induct) auto

lemma split_loop_length:
  "length (split_loop s out cur) = length out + Suc (length (filter (\<lambda>c. c = LF) s))"
  by (induction s out cur rule: split_loop.induct) (auto simp: CR_def LF_def)

lemma split_loop_concat:
  "concat (split_loop s out cur) = concat out @ cur @ filter (\<lambda>c. c \<noteq> CR \<and> c \<noteq> LF) s"
  by (induction s out cur rule: split_loop.induct) auto

lemma split_loop_clean:
  "\<lbrakk>l \<in> set (split_loop s out cur); \<forall>x \<in> set out. LF \<notin> set x \<and> CR \<notin> set x;
    LF \<notin> set cur \<and> CR \<notin> set cur\<rbrakk> \<Longrightarrow> LF \<notin> set l \<and> CR \<notin> set l"
  by (induction s out cur rule: split_loop.induct) (auto split: if_splits)

subsection \<open>The shape of a run\<close>

lemma load_kanji2koe_events:
  "load_kanji2koe w p = (r, evs) \<Longrightarrow> \<forall>e \<in> set evs. is_loader_event e"
  by (auto simp: load_kanji2koe_def Let_def split: if_splits)

lemma load_aquestalk_events:
  "load_aquestalk w p = (r, evs) \<Longrightarrow> \<forall>e \<in> set evs. is_loader_event e"
  by (auto simp: load_aquestalk_def Let_def split: if_splits)

lemma set_keys_events: "\<forall>e \<in> set (set_keys d u). is_loader_event e"
  by (auto simp: set_keys_def)

lemma loader_event_other:
  "is_loader_event e \<Longrightarrow>
     \<not> is_created e \<and> \<not> is_release e \<and> \<not> is_convert e \<and> \<not> is_failed_convert e
     \<and> \<not> is_synthesize e \<and> \<not> synthesized_buffer e \<and> \<not> is_freewave e \<and> \<not> is_output e
     \<and> \<not> is_legacy_call e \<and> \<not> is_utf8_call e \<and> synthesis_speed e = None
     \<and> (\<forall>d. e \<noteq> Stderr d)"
  by (cases e) auto

lemma convert_event_other:
  "is_convert e \<Longrightarrow>
     \<not> is_created e \<and> \<not> is_release e \<and> \<not> is_loader_event e \<and> \<not> is_load e
     \<and> \<not> is_synthesize e \<and> \<not> synthesized_buffer e \<and> \<not> is_freewave e \<and> \<not> is_output e
     \<and> synthesis_speed e = None \<and> (\<forall>d. e \<noteq> Stderr d)"
  by (cases e) auto

lemma convert_event_simps [simp]:
  "is_convert (convert_event us h l rc)"
  "is_failed_convert (convert_event us h l rc) = (rc \<noteq> 0)"
  "is_legacy_call (convert_event us h l rc) = us"
  "is_utf8_call (convert_event us h l rc) = (\<not> us)"
  by (simp_all add: convert_event_def)

lemma convert_loop_step:
  assumes "convert_loop w us h i (l # rest) acc = (r, evs)"
  shows "(trim l = [] \<and> convert_loop w us h i rest acc = (r, evs))
       \<or> (trim l \<noteq> [] \<and> (\<exists>rc buf. convert_call w us i (trim l) = (rc, buf)
            \<and> ((rc \<noteq> 0 \<and> r = Inl rc \<and> evs = [convert_event us h (trim l) rc])
               \<or> (rc = 0 \<and> (\<exists>evs'. evs = convert_event us h (trim l) 0 # evs'
                    \<and> convert_loop w us h (Suc i) rest
                         (if trim (c_str buf) = [] then acc
                          else (if acc \<noteq> [] then acc @ ''/'' else acc) @ trim (c_str buf))
                       = (r, evs'))))))"
  using assms
  by (auto simp: Let_def split: if_splits prod.splits)

lemma convert_loop_events:
  "convert_loop w us h i ls acc = (r, evs) \<Longrightarrow>
     \<forall>e \<in> set evs. is_convert e \<and> is_legacy_call e = us \<and> is_utf8_call e = (\<not> us)"
proof (induction ls arbitrary: i acc r evs)
  case Nil
  then show ?case by simp
next
  case (Cons l rest)
  from convert_loop_step [OF Cons.prems] show ?case
    using Cons.IH by fastforce
qed

lemma convert_loop_failed:
  "convert_loop w us h i ls acc = (r, evs) \<Longrightarrow>
     (\<exists>e \<in> set evs. is_failed_convert e) = (\<exists>rc. r = Inl rc)"
proof (induction ls arbitrary: i acc r evs)
  case Nil
  then show ?case by auto
next
  case (Cons l rest)
  from convert_loop_step [OF Cons.prems] show ?case
    using Cons.IH by fastforce
qed

text \<open>Every run either stops during the setup, or is a prefix of loader calls followed
  by the conversion session.\<close>

lemma load_and_run_cases:
  assumes "load_and_run w us sp voice dk uk out root = (code, tr)"
  shows "(\<exists>pre d. tr = pre @ [Stderr d] \<and> is_setup_diagnostic d
            \<and> (\<forall>e \<in> set pre. is_loader_event e) \<and> (code = 2 \<or> code = 3))
       \<or> (\<exists>pre rest. tr = pre @ rest \<and> (\<forall>e \<in> set pre. is_loader_event e)
            \<and> convert_session w us sp out (k2k_dic_of w root) = (code, rest))"
proof (cases "\<not> fs_exists w (k2k_dll_of w root) \<or> \<not> fs_exists w (k2k_dic_of w root)
                \<or> \<not> fs_exists w (tk_dll_of w root voice)")
  case True
  with assms have "tr = [] @ [Stderr (Missing_SDK_files (utf8_path (k2k_dll_of w root))
      (utf8_path (k2k_dic_of w root)) (utf8_path (tk_dll_of w root voice)))]" "code = 2"
    by (auto simp: load_and_run_def Let_def)
  then show ?thesis by force
next
  case present: False
  obtain r1 evs1 where l1: "load_kanji2koe w (k2k_dll_of w root) = (r1, evs1)"
    by (cases "load_kanji2koe w (k2k_dll_of w root)") auto
  obtain r2 evs2 where l2: "load_aquestalk w (tk_dll_of w root voice) = (r2, evs2)"
    by (cases "load_aquestalk w (tk_dll_of w root voice)") auto
  note e1 = load_kanji2koe_events [OF l1] and e2 = load_aquestalk_events [OF l2]
  show ?thesis
  proof (cases r1)
    case None
    with assms present l1 have "tr = evs1 @ [Stderr Load_kanji2koe_failed]" "code = 3"
      by (auto simp: load_and_run_def Let_def)
    with e1 show ?thesis by force
  next
    case k2k: (Some k2k_api)
    show ?thesis
    proof (cases r2)
      case None
      with assms present l1 l2 k2k
      have "tr = (evs1 @ evs2) @ [Stderr (Load_aquestalk_failed voice)]" "code = 3"
        by (auto simp: load_and_run_def Let_def)
      moreover from e1 e2 have "\<forall>e \<in> set (evs1 @ evs2). is_loader_event e" by auto
      ultimately show ?thesis by (metis is_setup_diagnostic.simps(6))
    next
      case (Some tk_api)
      with assms present l1 l2 k2k obtain rest where
        "convert_session w us sp out (k2k_dic_of w root) = (code, rest)"
        "tr = (evs1 @ evs2 @ set_keys dk uk) @ rest"
        by (auto simp: load_and_run_def Let_def split: prod.splits)
      moreover from e1 e2 set_keys_events [of dk uk]
      have "\<forall>e \<in> set (evs1 @ evs2 @ set_keys dk uk). is_loader_event e" by auto
      ultimately show ?thesis by blast
    qed
  qed
qed

lemma main_cases:
  assumes "main w = (code, tr)"
  shows "(\<exists>pre d. tr = pre @ [Stderr d] \<and> is_setup_diagnostic d
            \<and> (\<forall>e \<in> set pre. is_loader_event e) \<and> (code = 0 \<or> code = 2 \<or> code = 3))
       \<or> (\<exists>pre rest v out root. tr = pre @ rest \<and> (\<forall>e \<in> set pre. is_loader_event e)
            \<and> parse_speed (args_of w) = Some v
            \<and> convert_session w (use_sjis_of (args_of w)) (clamp_speed v) out
                 (k2k_dic_of w root) = (code, rest))"
proof (cases "has_flag (args_of w) ''--help'' \<or> has_flag (args_of w) ''-h''")
  case True
  with assms have "tr = [] @ [Stderr Usage]" "code = 0" by (auto simp: main_def Let_def)
  then show ?thesis by force
next
  case nohelp: False
  show ?thesis
  proof (cases "parse_speed (args_of w)")
    case None
    with nohelp assms have "tr = [] @ [Stderr Invalid_speed]" "code = 2"
      by (auto simp: main_def Let_def)
    then show ?thesis by force
  next
    case (Some v)
    show ?thesis
    proof (cases "resolve_root w (args_of w)")
      case None
      with nohelp Some assms have "tr = [] @ [Stderr Root_not_detected]" "code = 2"
        by (auto simp: main_def Let_def)
      then show ?thesis by force
    next
      case root: (Some aq_root)
      from nohelp Some root assms obtain voice dk uk out where
        run: "load_and_run w (use_sjis_of (args_of w)) (clamp_speed v) voice dk uk out aq_root
                = (code, tr)"
        by (auto simp: main_def Let_def)
      from load_and_run_cases [OF run] Some show ?thesis by blast
    qed
  qed
qed


lemma convert_session_unfold:
  assumes "AqKanji2Koe_Create w (c_str (utf8_path dic)) = (h, err)"
    and "convert_loop w us h 0 (split_lines (trim (read_all_stdin w))) [] = (r, evs)"
    and "synthesize_and_write w us sp out (case r of Inl rc \<Rightarrow> [] | Inr koe \<Rightarrow> koe)
           = (code2, evs2)"
  shows "convert_session w us sp out dic =
     (if h = 0
      then (4, [Ev_Create (c_str (utf8_path dic)) h err, Stderr (Create_failed err)])
      else if trim (read_all_stdin w) = []
      then (2, [Ev_Create (c_str (utf8_path dic)) h err, Stderr No_input_text, Ev_Release h])
      else case r of
             Inl rc \<Rightarrow> (4, Ev_Create (c_str (utf8_path dic)) h err # evs
                             @ [Stderr (Convert_failed rc), Ev_Release h])
           | Inr koe \<Rightarrow>
               if koe = []
               then (4, Ev_Create (c_str (utf8_path dic)) h err # evs
                          @ [Ev_Release h, Stderr Empty_koe])
               else (code2, Ev_Create (c_str (utf8_path dic)) h err # evs
                              @ [Ev_Release h] @ evs2))"
  using assms
  by (auto simp: convert_session_def Let_def split: sum.splits)

lemma synthesize_and_write_events:
  assumes "synthesize_and_write w us sp out koe = (code, evs)"
  shows "\<exists>ev rest. evs = ev # rest \<and> is_synthesize ev \<and> synthesis_speed ev = Some sp
           \<and> is_legacy_call ev = us \<and> is_utf8_call ev = (\<not> us)
           \<and> (\<forall>e \<in> set rest. \<not> is_synthesize e \<and> \<not> is_legacy_call e \<and> \<not> is_utf8_call e
                 \<and> synthesis_speed e = None)
           \<and> (\<forall>e \<in> set evs. \<not> is_release e \<and> \<not> is_created e \<and> \<not> is_convert e
                 \<and> \<not> is_failed_convert e \<and> \<not> is_loader_event e \<and> \<not> is_load e
                 \<and> e \<noteq> Stderr Empty_koe \<and> e \<noteq> Stderr No_input_text)"
  using assms
  by (auto simp: synthesize_and_write_def Let_def split: if_splits prod.splits)

lemma filter_none: "\<forall>e \<in> set xs. \<not> P e \<Longrightarrow> filter P xs = []"
  by (simp add: filter_empty_conv)

lemma convert_session_elim:
  assumes "convert_session w us sp out dic = (code, tr)"
  obtains h err r evs code2 evs2 where
    "AqKanji2Koe_Create w (c_str (utf8_path dic)) = (h, err)"
    "convert_loop w us h 0 (split_lines (trim (read_all_stdin w))) [] = (r, evs)"
    "synthesize_and_write w us sp out (case r of Inl rc \<Rightarrow> [] | Inr koe \<Rightarrow> koe)
       = (code2, evs2)"
    "(code, tr) =
     (if h = 0
      then (4, [Ev_Create (c_str (utf8_path dic)) h err, Stderr (Create_failed err)])
      else if trim (read_all_stdin w) = []
      then (2, [Ev_Create (c_str (utf8_path dic)) h err, Stderr No_input_text, Ev_Release h])
      else case r of
             Inl rc \<Rightarrow> (4, Ev_Create (c_str (utf8_path dic)) h err # evs
                             @ [Stderr (Convert_failed rc), Ev_Release h])
           | Inr koe \<Rightarrow>
               if koe = []
               then (4, Ev_Create (c_str (utf8_path dic)) h err # evs
                          @ [Ev_Release h, Stderr Empty_koe])
               else (code2, Ev_Create (c_str (utf8_path dic)) h err # evs
                              @ [Ev_Release h] @ evs2))"
proof -
  obtain h err where c: "AqKanji2Koe_Create w (c_str (utf8_path dic)) = (h, err)"
    by (cases "AqKanji2Koe_Create w (c_str (utf8_path dic))") auto
  obtain r evs where
    l: "convert_loop w us h 0 (split_lines (trim (read_all_stdin w))) [] = (r, evs)"
    by (cases "convert_loop w us h 0 (split_lines (trim (read_all_stdin w))) []") auto
  obtain code2 evs2 where
    s: "synthesize_and_write w us sp out (case r of Inl rc \<Rightarrow> [] | Inr koe \<Rightarrow> koe)
          = (code2, evs2)"
    by (cases "synthesize_and_write w us sp out (case r of Inl rc \<Rightarrow> [] | Inr koe \<Rightarrow> koe)")
      auto
  show thesis
    using that [OF c l s] assms convert_session_unfold [OF c l s] by simp
qed

text \<open>The conversion session: one release for a created session, after the creation,
  and no synthesis after a failed conversion.\<close>

lemma convert_session_discipline:
  assumes "convert_session w us sp out dic = (code, tr)"
  shows "length (filter is_release tr) = (if \<exists>e \<in> set tr. is_created e then 1 else 0)"
    and "\<And>d h err. Ev_Create d h err \<in> set tr \<Longrightarrow> h \<noteq> 0 \<Longrightarrow>
           \<exists>mid post. tr = Ev_Create d h err # mid @ Ev_Release h # post"
    and "\<exists>e \<in> set tr. is_failed_convert e \<Longrightarrow>
           code = 4 \<and> (\<forall>e \<in> set tr. \<not> is_synthesize e \<and> \<not> is_output e)"
proof -
  from assms obtain h err r evs code2 evs2 where
    l: "convert_loop w us h 0 (split_lines (trim (read_all_stdin w))) [] = (r, evs)"
    and s: "synthesize_and_write w us sp out (case r of Inl rc \<Rightarrow> [] | Inr koe \<Rightarrow> koe)
       = (code2, evs2)"
    and eq: "(code, tr) =
     (if h = 0
      then (4, [Ev_Create (c_str (utf8_path dic)) h err, Stderr (Create_failed err)])
      else if trim (read_all_stdin w) = []
      then (2, [Ev_Create (c_str (utf8_path dic)) h err, Stderr No_input_text, Ev_Release h])
      else case r of
             Inl rc \<Rightarrow> (4, Ev_Create (c_str (utf8_path dic)) h err # evs
                             @ [Stderr (Convert_failed rc), Ev_Release h])
           | Inr koe \<Rightarrow>
               if koe = []
               then (4, Ev_Create (c_str (utf8_path dic)) h err # evs
                          @ [Ev_Release h, Stderr Empty_koe])
               else (code2, Ev_Create (c_str (utf8_path dic)) h err # evs
                              @ [Ev_Release h] @ evs2))"
    by (rule convert_session_elim)
  note le = convert_loop_events [OF l] and lf = convert_loop_failed [OF l]
    and se = synthesize_and_write_events [OF s]
  have loop: "filter is_release evs = []"
    using le convert_event_other by (intro filter_none) blast
  have syn: "filter is_release evs2 = []"
    using se by (intro filter_none) blast
  have loop_other: "\<forall>e \<in> set evs. \<not> is_created e \<and> \<not> is_synthesize e \<and> \<not> is_output e"
    using le convert_event_other by blast
  have syn_other: "\<forall>e \<in> set evs2. \<not> is_created e \<and> \<not> is_failed_convert e"
    using se by blast
  show "length (filter is_release tr) = (if \<exists>e \<in> set tr. is_created e then 1 else 0)"
    using eq by (auto simp: loop syn split: if_splits sum.splits)
  show "\<exists>mid post. tr = Ev_Create d h' err' # mid @ Ev_Release h' # post"
    if "Ev_Create d h' err' \<in> set tr" "h' \<noteq> 0" for d h' err'
  proof -
    have hd: "tr \<noteq> [] \<and> hd tr = Ev_Create (c_str (utf8_path dic)) h err"
      using eq by (auto split: if_splits sum.splits)
    have only: "\<forall>e \<in> set (tl tr). \<not> is_created e"
      using eq loop_other syn_other by (auto split: if_splits sum.splits)
    from that hd only have same: "Ev_Create d h' err' = Ev_Create (c_str (utf8_path dic)) h err"
      by (cases tr) auto
    with that have h: "h \<noteq> 0" by simp
    have "\<exists>mid post. tr = Ev_Create (c_str (utf8_path dic)) h err # mid @ Ev_Release h # post"
    proof (cases "trim (read_all_stdin w) = []")
      case True
      with eq h have "tr = Ev_Create (c_str (utf8_path dic)) h err # [Stderr No_input_text]
                             @ Ev_Release h # []" by simp
      then show ?thesis by blast
    next
      case False
      show ?thesis
      proof (cases r)
        case (Inl rc)
        with eq h False
        have "tr = Ev_Create (c_str (utf8_path dic)) h err # (evs @ [Stderr (Convert_failed rc)])
                     @ Ev_Release h # []" by simp
        then show ?thesis by blast
      next
        case (Inr koe)
        with eq h False
        have "tr = Ev_Create (c_str (utf8_path dic)) h err # evs
                     @ Ev_Release h # (if koe = [] then [Stderr Empty_koe] else evs2)"
          by (simp split: if_splits)
        then show ?thesis by blast
      qed
    qed
    with same show ?thesis by simp
  qed
  show "code = 4 \<and> (\<forall>e \<in> set tr. \<not> is_synthesize e \<and> \<not> is_output e)"
    if "\<exists>e \<in> set tr. is_failed_convert e"
    using that eq lf loop_other syn_other
    by (auto split: if_splits sum.splits)
qed

lemma clamp_speed_range: "50 \<le> clamp_speed v \<and> clamp_speed v \<le> 300"
  by (simp add: clamp_speed_def Let_def)

subsection \<open>Trimming and joining\<close>

lemma trim_front_eq: "trim_front s = dropWhile is_space s"
  by (induction s) auto

lemma trim_back_eq: "trim_back s = rev (dropWhile is_space (rev s))"
proof (induction s rule: rev_induct)
  case Nil
  show ?case by (simp add: trim_back.simps)
next
  case (snoc x xs)
  show ?case
    by (subst trim_back.simps) (simp add: snoc)
qed

lemma trim_eq: "trim s = rev (dropWhile is_space (rev (dropWhile is_space s)))"
  by (simp add: trim_def trim_front_eq trim_back_eq)

lemma dropWhile_rev_empty:
  "dropWhile P (rev (dropWhile P s)) = [] \<longleftrightarrow> dropWhile P s = []"
proof
  assume a: "dropWhile P (rev (dropWhile P s)) = []"
  show "dropWhile P s = []"
  proof (rule ccontr)
    assume n: "dropWhile P s \<noteq> []"
    then have "\<not> P (hd (dropWhile P s))" by (rule hd_dropWhile)
    moreover from n have "hd (dropWhile P s) \<in> set (rev (dropWhile P s))" by simp
    ultimately show False using a by (auto simp: dropWhile_eq_Nil_conv)
  qed
next
  assume a: "dropWhile P s = []"
  show "dropWhile P (rev (dropWhile P s)) = []" unfolding a by simp
qed

lemma trim_empty_iff: "trim s = [] \<longleftrightarrow> (\<forall>c \<in> set s. is_space c)"
proof -
  have "trim s = [] \<longleftrightarrow> dropWhile is_space (rev (dropWhile is_space s)) = []"
    unfolding trim_eq by (simp only: rev_is_Nil_conv)
  also have "\<dots> \<longleftrightarrow> dropWhile is_space s = []" by (rule dropWhile_rev_empty)
  also have "\<dots> \<longleftrightarrow> (\<forall>c \<in> set s. is_space c)" by (simp only: dropWhile_eq_Nil_conv)
  finally show ?thesis .
qed

lemma converted_parts_Nil [simp]: "converted_parts w us i [] = []"
  by (simp add: converted_parts_def nonblank_lines_def enumerate_eq_zip)

lemma converted_parts_Cons:
  "converted_parts w us i (l # ls) =
     (if trim l = [] then converted_parts w us i ls
      else if trim (c_str (snd (convert_call w us i (trim l)))) = []
           then converted_parts w us (Suc i) ls
           else trim (c_str (snd (convert_call w us i (trim l)))) # converted_parts w us (Suc i) ls)"
  by (simp add: converted_parts_def nonblank_lines_def)

lemma converted_parts_nonempty: "\<forall>p \<in> set (converted_parts w us i ls). p \<noteq> []"
  by (simp add: converted_parts_def)

text \<open>What the loop adds to the stream for one part.\<close>

lemma convert_loop_append:
  "convert_loop w us h i ls acc = (Inr koe, evs) \<Longrightarrow>
     koe = foldl (\<lambda>a p. (if a \<noteq> [] then a @ ''/'' else a) @ p) acc (converted_parts w us i ls)"
proof (induction ls arbitrary: i acc evs)
  case Nil
  then show ?case by simp
next
  case (Cons l rest)
  from convert_loop_step [OF Cons.prems] show ?case
    by (auto simp: converted_parts_Cons dest!: Cons.IH)
qed

lemma join_pause_Cons: "join_pause (p # ps) = p @ concat (map (\<lambda>q. CHR ''/'' # q) ps)"
  by (induction ps arbitrary: p) auto

lemma foldl_join:
  "\<forall>p \<in> set ps. p \<noteq> [] \<Longrightarrow>
     foldl (\<lambda>a p. (if a \<noteq> [] then a @ ''/'' else a) @ p) acc ps =
       (if acc = [] then join_pause ps else acc @ concat (map (\<lambda>q. CHR ''/'' # q) ps))"
proof (induction ps arbitrary: acc)
  case Nil
  then show ?case by simp
next
  case (Cons p ps)
  then have "p \<noteq> []" and rest: "\<forall>q \<in> set ps. q \<noteq> []" by auto
  from Cons.IH [OF rest, of "(if acc \<noteq> [] then acc @ ''/'' else acc) @ p"] \<open>p \<noteq> []\<close>
  show ?case by (simp add: join_pause_Cons)
qed

lemma join_pause_length:
  "ps \<noteq> [] \<Longrightarrow> length (join_pause ps) = sum_list (map length ps) + (length ps - 1)"
  by (induction ps rule: join_pause.induct) auto

lemma join_pause_count:
  "ps \<noteq> [] \<Longrightarrow> \<forall>p \<in> set ps. CHR ''/'' \<notin> set p \<Longrightarrow>
     length (filter (\<lambda>c. c = CHR ''/'') (join_pause ps)) = length ps - 1"
  by (induction ps rule: join_pause.induct) (auto simp: filter_empty_conv)

lemma free_ends: "p \<noteq> [] \<Longrightarrow> c \<notin> set p \<Longrightarrow> hd p \<noteq> c \<and> last p \<noteq> c"
  by (metis hd_in_set last_in_set)

lemma join_pause_nonempty: "ps \<noteq> [] \<Longrightarrow> \<forall>p \<in> set ps. p \<noteq> [] \<Longrightarrow> join_pause ps \<noteq> []"
  by (cases ps) (auto simp: join_pause_Cons)

lemma join_pause_hd:
  "ps \<noteq> [] \<Longrightarrow> \<forall>p \<in> set ps. p \<noteq> [] \<and> CHR ''/'' \<notin> set p \<Longrightarrow>
     hd (join_pause ps) \<noteq> CHR ''/''"
  by (cases ps) (auto simp: join_pause_Cons hd_append dest: free_ends)

lemma join_pause_last:
  "ps \<noteq> [] \<Longrightarrow> \<forall>p \<in> set ps. p \<noteq> [] \<and> CHR ''/'' \<notin> set p \<Longrightarrow>
     last (join_pause ps) \<noteq> CHR ''/''"
proof (induction ps rule: join_pause.induct)
  case 1
  then show ?case by simp
next
  case (2 p)
  then show ?case using free_ends [of p "CHR ''/''"] by simp
next
  case (3 p q ps)
  then have "join_pause (q # ps) \<noteq> []" by (intro join_pause_nonempty) auto
  with 3 show ?case by simp
qed

lemma doubled_append_free:
  "p \<noteq> [] \<Longrightarrow> c \<notin> set p \<Longrightarrow> doubled c (p @ ys) = doubled c (last p # ys)"
proof (induction p)
  case Nil
  then show ?case by simp
next
  case (Cons x xs)
  show ?case
  proof (cases xs)
    case Nil
    then show ?thesis by simp
  next
    case (Cons y zs)
    with Cons.IH Cons.prems show ?thesis by auto
  qed
qed

lemma join_pause_not_doubled:
  "ps \<noteq> [] \<Longrightarrow> \<forall>p \<in> set ps. p \<noteq> [] \<and> CHR ''/'' \<notin> set p \<Longrightarrow>
     \<not> doubled (CHR ''/'') (join_pause ps)"
proof (induction ps rule: join_pause.induct)
  case 1
  then show ?case by simp
next
  case (2 p)
  then have "doubled (CHR ''/'') (p @ []) = doubled (CHR ''/'') (last p # [])"
    by (intro doubled_append_free) auto
  then show ?case by simp
next
  case (3 p q ps)
  from 3 have h: "join_pause (q # ps) \<noteq> [] \<and> hd (join_pause (q # ps)) \<noteq> CHR ''/''"
    using join_pause_hd [of "q # ps"] join_pause_nonempty [of "q # ps"] by auto
  then obtain x xs where x: "join_pause (q # ps) = x # xs" "x \<noteq> CHR ''/''"
    by (cases "join_pause (q # ps)") auto
  from 3 have ih: "\<not> doubled (CHR ''/'') (join_pause (q # ps))" by auto
  from 3 have "doubled (CHR ''/'') (p @ (CHR ''/'' # join_pause (q # ps)))
      = doubled (CHR ''/'') (last p # CHR ''/'' # join_pause (q # ps))"
    by (intro doubled_append_free) auto
  moreover from 3 have "last p \<noteq> CHR ''/''" by (metis last_in_set list.set_intros(1))
  ultimately show ?case using ih x by simp
qed

lemma doubled_iff:
  "doubled c s \<longleftrightarrow> (\<exists>i. Suc i < length s \<and> s ! i = c \<and> s ! Suc i = c)"
proof (induction c s rule: doubled.induct)
  case (1 c x y zs)
  show ?case
  proof
    assume "doubled c (x # y # zs)"
    then consider "x = c \<and> y = c" | "doubled c (y # zs)" by auto
    then show "\<exists>i. Suc i < length (x # y # zs) \<and> (x # y # zs) ! i = c \<and> (x # y # zs) ! Suc i = c"
    proof cases
      case 1
      then show ?thesis by (intro exI [of _ 0]) simp
    next
      case 2
      with "1.IH" obtain i where "Suc i < length (y # zs)" "(y # zs) ! i = c" "(y # zs) ! Suc i = c"
        by auto
      then show ?thesis by (intro exI [of _ "Suc i"]) simp
    qed
  next
    assume "\<exists>i. Suc i < length (x # y # zs) \<and> (x # y # zs) ! i = c \<and> (x # y # zs) ! Suc i = c"
    then obtain i where i: "Suc i < length (x # y # zs)" "(x # y # zs) ! i = c"
      "(x # y # zs) ! Suc i = c" by auto
    show "doubled c (x # y # zs)"
    proof (cases i)
      case 0
      with i show ?thesis by simp
    next
      case (Suc j)
      with i have "Suc j < length (y # zs) \<and> (y # zs) ! j = c \<and> (y # zs) ! Suc j = c" by simp
      with "1.IH" show ?thesis by auto
    qed
  qed
qed simp_all

subsection \<open>Facts about single stages\<close>

lemma convert_session_speed:
  assumes "convert_session w us sp out dic = (code, tr)"
    and "e \<in> set tr" and "synthesis_speed e = Some sp'"
  shows "sp' = sp"
proof -
  from assms(1) obtain h err r evs code2 evs2 where
    l: "convert_loop w us h 0 (split_lines (trim (read_all_stdin w))) [] = (r, evs)"
    and s: "synthesize_and_write w us sp out (case r of Inl rc \<Rightarrow> [] | Inr koe \<Rightarrow> koe)
       = (code2, evs2)"
    and eq: "(code, tr) =
     (if h = 0
      then (4, [Ev_Create (c_str (utf8_path dic)) h err, Stderr (Create_failed err)])
      else if trim (read_all_stdin w) = []
      then (2, [Ev_Create (c_str (utf8_path dic)) h err, Stderr No_input_text, Ev_Release h])
      else case r of
             Inl rc \<Rightarrow> (4, Ev_Create (c_str (utf8_path dic)) h err # evs
                             @ [Stderr (Convert_failed rc), Ev_Release h])
           | Inr koe \<Rightarrow>
               if koe = []
               then (4, Ev_Create (c_str (utf8_path dic)) h err # evs
                          @ [Ev_Release h, Stderr Empty_koe])
               else (code2, Ev_Create (c_str (utf8_path dic)) h err # evs
                              @ [Ev_Release h] @ evs2))"
    by (rule convert_session_elim)
  have loop: "\<forall>e \<in> set evs. synthesis_speed e = None"
    using convert_loop_events [OF l] convert_event_other by blast
  have syn: "\<forall>e \<in> set evs2. synthesis_speed e = None \<or> synthesis_speed e = Some sp"
    using synthesize_and_write_events [OF s] by auto
  from eq assms(2,3) loop syn show ?thesis
    by (auto split: if_splits sum.splits)
qed

lemma convert_session_encoding:
  assumes "convert_session w us sp out dic = (code, tr)" and "e \<in> set tr"
  shows "(is_legacy_call e \<longrightarrow> us) \<and> (is_utf8_call e \<longrightarrow> \<not> us)"
proof -
  from assms(1) obtain h err r evs code2 evs2 where
    l: "convert_loop w us h 0 (split_lines (trim (read_all_stdin w))) [] = (r, evs)"
    and s: "synthesize_and_write w us sp out (case r of Inl rc \<Rightarrow> [] | Inr koe \<Rightarrow> koe)
       = (code2, evs2)"
    and eq: "(code, tr) =
     (if h = 0
      then (4, [Ev_Create (c_str (utf8_path dic)) h err, Stderr (Create_failed err)])
      else if trim (read_all_stdin w) = []
      then (2, [Ev_Create (c_str (utf8_path dic)) h err, Stderr No_input_text, Ev_Release h])
      else case r of
             Inl rc \<Rightarrow> (4, Ev_Create (c_str (utf8_path dic)) h err # evs
                             @ [Stderr (Convert_failed rc), Ev_Release h])
           | Inr koe \<Rightarrow>
               if koe = []
               then (4, Ev_Create (c_str (utf8_path dic)) h err # evs
                          @ [Ev_Release h, Stderr Empty_koe])
               else (code2, Ev_Create (c_str (utf8_path dic)) h err # evs
                              @ [Ev_Release h] @ evs2))"
    by (rule convert_session_elim)
  have loop: "\<forall>e \<in> set evs. (is_legacy_call e \<longrightarrow> us) \<and> (is_utf8_call e \<longrightarrow> \<not> us)"
    using convert_loop_events [OF l] by blast
  have syn: "\<forall>e \<in> set evs2. (is_legacy_call e \<longrightarrow> us) \<and> (is_utf8_call e \<longrightarrow> \<not> us)"
    using synthesize_and_write_events [OF s] by auto
  from eq assms(2) loop syn show ?thesis
    by (auto split: if_splits sum.splits)
qed

lemma main_encoding:
  assumes "e \<in> set (snd (main w))"
  shows "(is_legacy_call e \<longrightarrow> use_sjis_of (args_of w))
       \<and> (is_utf8_call e \<longrightarrow> \<not> use_sjis_of (args_of w))"
proof -
  obtain code tr where run: "main w = (code, tr)" by (cases "main w") auto
  from main_cases [OF run] consider
    (early) pre d where "tr = pre @ [Stderr d]" "\<forall>e \<in> set pre. is_loader_event e"
  | (session) pre rest v out root where "tr = pre @ rest"
      "\<forall>e \<in> set pre. is_loader_event e"
      "convert_session w (use_sjis_of (args_of w)) (clamp_speed v) out (k2k_dic_of w root)
         = (code, rest)"
    by blast
  then show ?thesis
  proof cases
    case early
    with assms run loader_event_other show ?thesis by fastforce
  next
    case session
    from session(2) loader_event_other
    have "\<forall>e \<in> set pre. \<not> is_legacy_call e \<and> \<not> is_utf8_call e" by blast
    with assms run session(1) convert_session_encoding [OF session(3)] show ?thesis
      by auto
  qed
qed

lemma main_proceeds:
  assumes "\<not> has_flag (args_of w) ''--help''" and "\<not> has_flag (args_of w) ''-h''"
    and "parse_speed (args_of w) = Some v" and "resolve_root w (args_of w) = Some root"
  shows "main w = load_and_run w (use_sjis_of (args_of w)) (clamp_speed v) (voice_of (args_of w))
                    (dev_key_of w (args_of w)) (usr_key_of w (args_of w))
                    (out_path_of w (args_of w)) root"
  using assms by (simp add: main_def Let_def)

lemma convert_session_no_input:
  assumes "convert_session w us sp out dic = (code, tr)" and "trim (read_all_stdin w) = []"
  shows "\<exists>h err. (h = 0 \<and> code = 4
                     \<and> tr = [Ev_Create (c_str (utf8_path dic)) h err, Stderr (Create_failed err)])
                 \<or> (h \<noteq> 0 \<and> code = 2
                     \<and> tr = [Ev_Create (c_str (utf8_path dic)) h err, Stderr No_input_text,
                             Ev_Release h])"
  using assms
  by (cases "AqKanji2Koe_Create w (c_str (utf8_path dic))")
     (auto simp: convert_session_def Let_def split: if_splits)

lemma blank_lines_trim:
  assumes "\<forall>l \<in> set (split_lines s). trim l = []"
  shows "trim s = []"
proof -
  from assms have "\<forall>c \<in> set (concat (split_lines s)). is_space c"
    by (auto simp: trim_empty_iff)
  then have "\<forall>c \<in> set (filter (\<lambda>c. c \<noteq> CR \<and> c \<noteq> LF) s). is_space c"
    by (simp add: split_lines_def split_loop_concat)
  then have "\<forall>c \<in> set s. is_space c"
    by (auto simp: is_space_def)
  then show ?thesis by (simp add: trim_empty_iff)
qed

lemma convert_session_empty_koe:
  assumes "convert_session w us sp out dic = (code, tr)" and "Stderr Empty_koe \<in> set tr"
  shows "code = 4 \<and> trim (read_all_stdin w) \<noteq> [] \<and> length (filter is_release tr) = 1
       \<and> (\<forall>e \<in> set tr. \<not> is_failed_convert e \<and> \<not> is_synthesize e \<and> \<not> is_output e)"
proof -
  from assms(1) obtain h err r evs code2 evs2 where
    l: "convert_loop w us h 0 (split_lines (trim (read_all_stdin w))) [] = (r, evs)"
    and s: "synthesize_and_write w us sp out (case r of Inl rc \<Rightarrow> [] | Inr koe \<Rightarrow> koe)
       = (code2, evs2)"
    and eq: "(code, tr) =
     (if h = 0
      then (4, [Ev_Create (c_str (utf8_path dic)) h err, Stderr (Create_failed err)])
      else if trim (read_all_stdin w) = []
      then (2, [Ev_Create (c_str (utf8_path dic)) h err, Stderr No_input_text, Ev_Release h])
      else case r of
             Inl rc \<Rightarrow> (4, Ev_Create (c_str (utf8_path dic)) h err # evs
                             @ [Stderr (Convert_failed rc), Ev_Release h])
           | Inr koe \<Rightarrow>
               if koe = []
               then (4, Ev_Create (c_str (utf8_path dic)) h err # evs
                          @ [Ev_Release h, Stderr Empty_koe])
               else (code2, Ev_Create (c_str (utf8_path dic)) h err # evs
                              @ [Ev_Release h] @ evs2))"
    by (rule convert_session_elim)
  note le = convert_loop_events [OF l] and lf = convert_loop_failed [OF l]
    and se = synthesize_and_write_events [OF s]
  have loop: "\<forall>e \<in> set evs. \<not> is_release e \<and> \<not> is_synthesize e \<and> \<not> is_output e
                \<and> e \<noteq> Stderr Empty_koe"
    using le convert_event_other by blast
  then have none: "filter is_release evs = []" by (intro filter_none) blast
  have syn: "\<forall>e \<in> set evs2. e \<noteq> Stderr Empty_koe"
    using se by blast
  from eq assms(2) loop syn lf none show ?thesis
    by (auto split: if_splits sum.splits)
qed

lemma synthesize_and_write_freewave:
  assumes "synthesize_and_write w us sp out koe = (code, evs)"
  shows "length (filter is_freewave evs) = (if \<exists>e \<in> set evs. synthesized_wave e then 1 else 0)"
  using assms
  by (auto simp: synthesize_and_write_def Let_def split: if_splits prod.splits)

lemma convert_session_freewave:
  assumes "convert_session w us sp out dic = (code, tr)"
  shows "length (filter is_freewave tr) = (if \<exists>e \<in> set tr. synthesized_wave e then 1 else 0)"
proof -
  from assms(1) obtain h err r evs code2 evs2 where
    l: "convert_loop w us h 0 (split_lines (trim (read_all_stdin w))) [] = (r, evs)"
    and s: "synthesize_and_write w us sp out (case r of Inl rc \<Rightarrow> [] | Inr koe \<Rightarrow> koe)
       = (code2, evs2)"
    and eq: "(code, tr) =
     (if h = 0
      then (4, [Ev_Create (c_str (utf8_path dic)) h err, Stderr (Create_failed err)])
      else if trim (read_all_stdin w) = []
      then (2, [Ev_Create (c_str (utf8_path dic)) h err, Stderr No_input_text, Ev_Release h])
      else case r of
             Inl rc \<Rightarrow> (4, Ev_Create (c_str (utf8_path dic)) h err # evs
                             @ [Stderr (Convert_failed rc), Ev_Release h])
           | Inr koe \<Rightarrow>
               if koe = []
               then (4, Ev_Create (c_str (utf8_path dic)) h err # evs
                          @ [Ev_Release h, Stderr Empty_koe])
               else (code2, Ev_Create (c_str (utf8_path dic)) h err # evs
                              @ [Ev_Release h] @ evs2))"
    by (rule convert_session_elim)
  have loop: "\<forall>e \<in> set evs. \<not> is_freewave e \<and> \<not> synthesized_wave e"
  proof
    fix e assume "e \<in> set evs"
    with convert_loop_events [OF l] have "is_convert e" by blast
    then show "\<not> is_freewave e \<and> \<not> synthesized_wave e" by (cases e) auto
  qed
  then have none: "filter is_freewave evs = []" by (intro filter_none) blast
  from eq loop none synthesize_and_write_freewave [OF s] show ?thesis
    by (auto split: if_splits sum.splits)
qed

text \<open>The buffer is released once exactly when the synthesis returned a buffer of positive
  size.\<close>

lemma main_freewave:
  assumes "main w = (code, tr)"
  shows "length (filter is_freewave tr) = (if \<exists>e \<in> set tr. synthesized_wave e then 1 else 0)"
proof -
  from main_cases [OF assms] consider
    (early) pre d where "tr = pre @ [Stderr d]" "\<forall>e \<in> set pre. is_loader_event e"
  | (session) pre rest v out root where "tr = pre @ rest" "\<forall>e \<in> set pre. is_loader_event e"
      "convert_session w (use_sjis_of (args_of w)) (clamp_speed v) out (k2k_dic_of w root)
         = (code, rest)"
    by blast
  then show ?thesis
  proof cases
    case early
    have pre: "\<forall>e \<in> set pre. \<not> is_freewave e \<and> \<not> synthesized_wave e"
    proof
      fix e assume "e \<in> set pre"
      with early(2) have "is_loader_event e" by blast
      then show "\<not> is_freewave e \<and> \<not> synthesized_wave e" by (cases e) auto
    qed
    then have "filter is_freewave pre = []" by (intro filter_none) blast
    with early(1) pre show ?thesis by auto
  next
    case session
    have pre: "\<forall>e \<in> set pre. \<not> is_freewave e \<and> \<not> synthesized_wave e"
    proof
      fix e assume "e \<in> set pre"
      with session(2) have "is_loader_event e" by blast
      then show "\<not> is_freewave e \<and> \<not> synthesized_wave e" by (cases e) auto
    qed
    then have "filter is_freewave pre = []" by (intro filter_none) blast
    with convert_session_freewave [OF session(3)] pre session(1) show ?thesis by auto
  qed
qed

lemma convert_session_empty_stream:
  assumes s: "convert_session w us sp out dic = (code, tr)"
    and c: "Ev_Create d h err \<in> set tr" and h: "h \<noteq> 0"
    and i: "trim (read_all_stdin w) \<noteq> []"
    and l: "convert_loop w us h 0 (split_lines (trim (read_all_stdin w))) [] = (Inr [], evs)"
  shows "code = 4 \<and> tr = Ev_Create d h err # evs @ [Ev_Release h, Stderr Empty_koe]"
proof -
  from s obtain h' err' r evs' code2 evs2 where
    l': "convert_loop w us h' 0 (split_lines (trim (read_all_stdin w))) [] = (r, evs')"
    and sy: "synthesize_and_write w us sp out (case r of Inl rc \<Rightarrow> [] | Inr koe \<Rightarrow> koe)
       = (code2, evs2)"
    and eq: "(code, tr) =
     (if h' = 0
      then (4, [Ev_Create (c_str (utf8_path dic)) h' err', Stderr (Create_failed err')])
      else if trim (read_all_stdin w) = []
      then (2, [Ev_Create (c_str (utf8_path dic)) h' err', Stderr No_input_text, Ev_Release h'])
      else case r of
             Inl rc \<Rightarrow> (4, Ev_Create (c_str (utf8_path dic)) h' err' # evs'
                             @ [Stderr (Convert_failed rc), Ev_Release h'])
           | Inr koe \<Rightarrow>
               if koe = []
               then (4, Ev_Create (c_str (utf8_path dic)) h' err' # evs'
                          @ [Ev_Release h', Stderr Empty_koe])
               else (code2, Ev_Create (c_str (utf8_path dic)) h' err' # evs'
                              @ [Ev_Release h'] @ evs2))"
    by (rule convert_session_elim)
  have loop: "\<forall>e \<in> set evs'. \<not> is_created e"
    using convert_loop_events [OF l'] convert_event_other by blast
  have syn: "\<forall>e \<in> set evs2. \<not> is_created e"
    using synthesize_and_write_events [OF sy] by blast
  have hd: "tr \<noteq> [] \<and> hd tr = Ev_Create (c_str (utf8_path dic)) h' err'"
    using eq by (auto split: if_splits sum.splits)
  have only: "\<forall>e \<in> set (tl tr). \<not> is_created e"
    using eq loop syn by (auto split: if_splits sum.splits)
  from c h hd only have same: "Ev_Create d h err = Ev_Create (c_str (utf8_path dic)) h' err'"
    by (cases tr) auto
  then have "h' = h" by simp
  with l l' have "r = Inr []" "evs' = evs" by simp_all
  with eq i h same show ?thesis by simp
qed

lemma convert_loop_only_converts:
  assumes "convert_loop w us h i ls acc = (r, evs)"
  shows "filter is_release evs = [] \<and> filter is_synthesize evs = [] \<and> filter is_output evs = []"
  using convert_loop_events [OF assms] convert_event_other
  by (auto simp: filter_empty_conv)

section \<open>The claims\<close>

subsection \<open>Claim C1\<close>

text \<open>
  Claim C1, as stated: if every input line is blank or holds white space only, the
  program halts with exit status 2, the ``empty conversion result'' case, and writes no
  output file. Two runs show what the code does. With lines of blanks and tabs the
  trimmed input is empty: the run halts with the ``no input'' status and never starts to
  convert. With a line holding a form feed, white space that \<open>trim\<close> does not remove, the
  line is converted, the stream stays empty, and the exit status of the ``empty
  conversion result'' case is 4.
\<close>

theorem blank_lines_halt_before_conversion:
  "list_all (\<lambda>l. trim l = []) (split_lines (read_all_stdin blank_lines_world))
   \<and> main blank_lines_world =
       (2, [Ev_LoadLibrary ''C:/aq/aqk2k_win_413/aqk2k_win/lib64/AqKanji2Koe.dll'' 7,
            Ev_LoadLibrary ''C:/aq/aqtk1_win_200/aqtk1_win/lib64/f1/AquesTalk.dll'' 7,
            Ev_Create ''C:/aq/aqk2k_win_413/aqk2k_win/aq_dic'' 11 0,
            Stderr No_input_text, Ev_Release 11])
   \<and> list_all (\<lambda>l. list_all isspace l) (split_lines (read_all_stdin form_feed_world))
   \<and> main form_feed_world =
       (4, [Ev_LoadLibrary ''C:/aq/aqk2k_win_413/aqk2k_win/lib64/AqKanji2Koe.dll'' 7,
            Ev_LoadLibrary ''C:/aq/aqtk1_win_200/aqtk1_win/lib64/f1/AquesTalk.dll'' 7,
            Ev_Create ''C:/aq/aqk2k_win_413/aqk2k_win/aq_dic'' 11 0,
            Ev_ConvertUtf8 11 [FF] 0, Ev_Release 11, Stderr Empty_koe])"
  by code_simp

text \<open>
  Claim C1, amended. If every input line is empty once trimmed (it holds only blanks, tabs,
  carriage returns), the trimmed input is empty: a run that has created its session halts
  with the ``no input'' status and exit code 2, without any conversion or synthesis call
  and without output file. The ``empty conversion result'' case is a run that has created
  its session, has input left after trimming, and whose line loop ends with an empty
  stream: such a run exits with status 4, its trace is loader calls, the \<open>Create\<close>, the
  conversions, the release of the session and the ``empty conversion'' diagnostic, so
  the session is released once, there is no synthesis call, and no output file is written.
  Conversely, the diagnostic is printed only with exit status 4, after input that is not
  empty once trimmed and conversions that all succeeded.
\<close>

theorem empty_conversion_exits_4:
  assumes "main w = (code, tr)"
  shows "((\<forall>l \<in> set (split_lines (read_all_stdin w)). trim l = [])
            \<and> (\<exists>e \<in> set tr. is_created e) \<longrightarrow>
          code = 2 \<and> Stderr No_input_text \<in> set tr \<and> Stderr Empty_koe \<notin> set tr
          \<and> (\<forall>e \<in> set tr. \<not> is_convert e \<and> \<not> is_synthesize e \<and> \<not> is_output e))
       \<and> (\<forall>dic h err evs.
            Ev_Create dic h err \<in> set tr \<and> h \<noteq> 0 \<and> trim (read_all_stdin w) \<noteq> []
            \<and> convert_loop w (use_sjis_of (args_of w)) h 0
                  (split_lines (trim (read_all_stdin w))) [] = (Inr [], evs) \<longrightarrow>
            code = 4 \<and> Stderr Empty_koe \<in> set tr
            \<and> (\<exists>pre. (\<forall>e \<in> set pre. is_loader_event e)
                  \<and> tr = pre @ Ev_Create dic h err # evs @ [Ev_Release h, Stderr Empty_koe])
            \<and> length (filter is_release tr) = 1
            \<and> filter is_synthesize tr = [] \<and> filter is_output tr = [])
       \<and> (Stderr Empty_koe \<in> set tr \<longrightarrow>
          code = 4 \<and> trim (read_all_stdin w) \<noteq> [] \<and> length (filter is_release tr) = 1
          \<and> (\<forall>e \<in> set tr. \<not> is_failed_convert e \<and> \<not> is_synthesize e \<and> \<not> is_output e))"
proof -
  from main_cases [OF assms] consider
    (early) pre d where "tr = pre @ [Stderr d]" "is_setup_diagnostic d"
      "\<forall>e \<in> set pre. is_loader_event e"
  | (session) pre rest v out root where "tr = pre @ rest" "\<forall>e \<in> set pre. is_loader_event e"
      "convert_session w (use_sjis_of (args_of w)) (clamp_speed v) out (k2k_dic_of w root)
         = (code, rest)"
    by blast
  then show ?thesis
  proof cases
    case early
    from early(3) loader_event_other
    have "\<forall>e \<in> set pre. \<not> is_created e \<and> e \<noteq> Stderr Empty_koe" by blast
    moreover have "Ev_Create dic h err \<notin> set tr" if "h \<noteq> 0" for dic h err
    proof
      assume "Ev_Create dic h err \<in> set tr"
      with early(1) have "Ev_Create dic h err \<in> set pre" by auto
      with early(3) show False by auto
    qed
    ultimately show ?thesis using early(1,2) by auto
  next
    case session
    from session(2) loader_event_other
    have pre: "\<forall>e \<in> set pre. \<not> is_created e \<and> \<not> is_release e \<and> \<not> is_convert e
                 \<and> \<not> is_failed_convert e \<and> \<not> is_synthesize e \<and> \<not> is_output e
                 \<and> e \<noteq> Stderr Empty_koe"
      by blast
    then have none: "filter is_release pre = []" "filter is_synthesize pre = []"
      "filter is_output pre = []"
      by (simp_all add: filter_empty_conv)
    have blank: "code = 2 \<and> Stderr No_input_text \<in> set tr \<and> Stderr Empty_koe \<notin> set tr
          \<and> (\<forall>e \<in> set tr. \<not> is_convert e \<and> \<not> is_synthesize e \<and> \<not> is_output e)"
      if b: "\<forall>l \<in> set (split_lines (read_all_stdin w)). trim l = []"
        and c: "\<exists>e \<in> set tr. is_created e"
    proof -
      from convert_session_no_input [OF session(3) blank_lines_trim [OF b]] obtain h err where
        "(h = 0 \<and> code = 4
            \<and> rest = [Ev_Create (c_str (utf8_path (k2k_dic_of w root))) h err,
                      Stderr (Create_failed err)])
         \<or> (h \<noteq> 0 \<and> code = 2
            \<and> rest = [Ev_Create (c_str (utf8_path (k2k_dic_of w root))) h err,
                      Stderr No_input_text, Ev_Release h])"
        by blast
      with c pre session(1) show ?thesis by auto
    qed
    have stream: "code = 4 \<and> Stderr Empty_koe \<in> set tr
            \<and> (\<exists>pre. (\<forall>e \<in> set pre. is_loader_event e)
                  \<and> tr = pre @ Ev_Create dic h err # evs @ [Ev_Release h, Stderr Empty_koe])
            \<and> length (filter is_release tr) = 1
            \<and> filter is_synthesize tr = [] \<and> filter is_output tr = []"
      if c: "Ev_Create dic h err \<in> set tr" and h: "h \<noteq> 0"
        and i: "trim (read_all_stdin w) \<noteq> []"
        and l: "convert_loop w (use_sjis_of (args_of w)) h 0
                  (split_lines (trim (read_all_stdin w))) [] = (Inr [], evs)"
      for dic h err evs
    proof -
      from c h pre session(1) have "Ev_Create dic h err \<in> set rest" by auto
      from convert_session_empty_stream [OF session(3) this h i l]
      have code: "code = 4"
        and rest: "rest = Ev_Create dic h err # evs @ [Ev_Release h, Stderr Empty_koe]"
        by simp_all
      from rest session(1)
      have tr: "tr = pre @ Ev_Create dic h err # evs @ [Ev_Release h, Stderr Empty_koe]"
        by simp
      with session(2) have shape: "\<exists>pre. (\<forall>e \<in> set pre. is_loader_event e)
          \<and> tr = pre @ Ev_Create dic h err # evs @ [Ev_Release h, Stderr Empty_koe]"
        by blast
      from convert_loop_only_converts [OF l] none tr
      have "length (filter is_release tr) = 1 \<and> filter is_synthesize tr = []
            \<and> filter is_output tr = [] \<and> Stderr Empty_koe \<in> set tr"
        by simp
      with code shape show ?thesis by blast
    qed
    have empty: "code = 4 \<and> trim (read_all_stdin w) \<noteq> [] \<and> length (filter is_release tr) = 1
          \<and> (\<forall>e \<in> set tr. \<not> is_failed_convert e \<and> \<not> is_synthesize e \<and> \<not> is_output e)"
      if "Stderr Empty_koe \<in> set tr"
    proof -
      from that pre session(1) have "Stderr Empty_koe \<in> set rest" by auto
      from convert_session_empty_koe [OF session(3) this] pre none(1) session(1)
      show ?thesis by auto
    qed
    from blank stream empty show ?thesis by blast
  qed
qed

text \<open>The two runs above, through the theorem.\<close>

theorem empty_conversion_exits_4_witness:
  "list_all (\<lambda>l. trim l = []) (split_lines (read_all_stdin blank_lines_world))
   \<and> (\<exists>e \<in> set (snd (main blank_lines_world)). is_created e)
   \<and> fst (main blank_lines_world) = 2
   \<and> Stderr No_input_text \<in> set (snd (main blank_lines_world))
   \<and> Ev_Create ''C:/aq/aqk2k_win_413/aqk2k_win/aq_dic'' 11 0 \<in> set (snd (main form_feed_world))
   \<and> trim (read_all_stdin form_feed_world) \<noteq> []
   \<and> convert_loop form_feed_world (use_sjis_of (args_of form_feed_world)) 11 0
        (split_lines (trim (read_all_stdin form_feed_world))) []
        = (Inr [], [Ev_ConvertUtf8 11 [FF] 0])
   \<and> Stderr Empty_koe \<in> set (snd (main form_feed_world))
   \<and> fst (main form_feed_world) = 4
   \<and> length (filter is_release (snd (main form_feed_world))) = 1
   \<and> filter is_synthesize (snd (main form_feed_world)) = []
   \<and> filter is_output (snd (main form_feed_world)) = []"
proof -
  have 1: "list_all (\<lambda>l. trim l = []) (split_lines (read_all_stdin blank_lines_world))"
    by code_simp
  have 2: "main blank_lines_world =
       (2, [Ev_LoadLibrary ''C:/aq/aqk2k_win_413/aqk2k_win/lib64/AqKanji2Koe.dll'' 7,
            Ev_LoadLibrary ''C:/aq/aqtk1_win_200/aqtk1_win/lib64/f1/AquesTalk.dll'' 7,
            Ev_Create ''C:/aq/aqk2k_win_413/aqk2k_win/aq_dic'' 11 0,
            Stderr No_input_text, Ev_Release 11])"
    by code_simp
  obtain code tr where 3: "main form_feed_world = (code, tr)"
    by (cases "main form_feed_world") auto
  have 4: "Ev_Create ''C:/aq/aqk2k_win_413/aqk2k_win/aq_dic'' 11 0
             \<in> set (snd (main form_feed_world))"
    by code_simp
  have 5: "trim (read_all_stdin form_feed_world) \<noteq> []" by code_simp
  have 6: "convert_loop form_feed_world (use_sjis_of (args_of form_feed_world)) 11 0
        (split_lines (trim (read_all_stdin form_feed_world))) []
        = (Inr [], [Ev_ConvertUtf8 11 [FF] 0])"
    by code_simp
  from empty_conversion_exits_4 [OF 3] 3 4 5 6
  have "code = 4 \<and> Stderr Empty_koe \<in> set tr \<and> length (filter is_release tr) = 1
        \<and> filter is_synthesize tr = [] \<and> filter is_output tr = []"
    by (metis (no_types, lifting) snd_conv zero_neq_numeral)
  with empty_conversion_exits_4 [OF 2] 1 3 4 5 6 show ?thesis
    by (simp add: 2 list_all_iff)
qed

subsection \<open>Claim C2\<close>

text \<open>
  Claim C2, as stated: a run whose standard input is empty after trimming halts with the
  ``no input'' status, exit code 2, and \<open>Create\<close> is never invoked before that halt. With
  nothing on the standard input the run below does halt with that status, but after it has
  called \<open>Create\<close>: the input is read only once the session exists. When \<open>Create\<close> fails,
  the run with the same empty input ends with exit code 4 and never reads its input.
\<close>

theorem no_input_halts_after_create_only:
  "trim (read_all_stdin no_input_world) = []
   \<and> main no_input_world =
       (2, [Ev_LoadLibrary ''C:/aq/aqk2k_win_413/aqk2k_win/lib64/AqKanji2Koe.dll'' 7,
            Ev_LoadLibrary ''C:/aq/aqtk1_win_200/aqtk1_win/lib64/f1/AquesTalk.dll'' 7,
            Ev_Create ''C:/aq/aqk2k_win_413/aqk2k_win/aq_dic'' 11 0,
            Stderr No_input_text, Ev_Release 11])
   \<and> trim (read_all_stdin create_failing_world) = []
   \<and> main create_failing_world =
       (4, [Ev_LoadLibrary ''C:/aq/aqk2k_win_413/aqk2k_win/lib64/AqKanji2Koe.dll'' 7,
            Ev_LoadLibrary ''C:/aq/aqtk1_win_200/aqtk1_win/lib64/f1/AquesTalk.dll'' 7,
            Ev_Create ''C:/aq/aqk2k_win_413/aqk2k_win/aq_dic'' 0 103,
            Stderr (Create_failed 103)])"
  by code_simp

text \<open>
  Claim C2, amended. A run whose standard input is empty after trimming halts with the
  ``no input'' status exactly when it gets as far as creating the conversion session; the
  exit code is then 2, and the run ends with the successful \<open>Create\<close> call, the
  diagnostic and the release of that session, in this order, after loader calls only: no
  conversion or synthesis call is made and no output is written.
\<close>

theorem no_input_halts_after_create:
  assumes "trim (read_all_stdin w) = []" and "main w = (code, tr)"
  shows "(Stderr No_input_text \<in> set tr \<longleftrightarrow> (\<exists>e \<in> set tr. is_created e))
       \<and> (Stderr No_input_text \<in> set tr \<longrightarrow>
            code = 2
            \<and> (\<exists>pre dic h err. h \<noteq> 0 \<and> (\<forall>e \<in> set pre. is_loader_event e)
                  \<and> tr = pre @ [Ev_Create dic h err, Stderr No_input_text, Ev_Release h]))"
proof -
  from main_cases [OF assms(2)] consider
    (early) pre d where "tr = pre @ [Stderr d]" "is_setup_diagnostic d"
      "\<forall>e \<in> set pre. is_loader_event e"
  | (session) pre rest v out root where "tr = pre @ rest" "\<forall>e \<in> set pre. is_loader_event e"
      "convert_session w (use_sjis_of (args_of w)) (clamp_speed v) out (k2k_dic_of w root)
         = (code, rest)"
    by blast
  then show ?thesis
  proof cases
    case early
    from early(3) loader_event_other
    have "\<forall>e \<in> set pre. \<not> is_created e \<and> e \<noteq> Stderr No_input_text" by blast
    with early(1,2) show ?thesis by auto
  next
    case session
    from session(2) loader_event_other
    have pre: "\<forall>e \<in> set pre. \<not> is_created e \<and> e \<noteq> Stderr No_input_text" by blast
    from convert_session_no_input [OF session(3) assms(1)] obtain h err where
      "(h = 0 \<and> code = 4
          \<and> rest = [Ev_Create (c_str (utf8_path (k2k_dic_of w root))) h err,
                    Stderr (Create_failed err)])
       \<or> (h \<noteq> 0 \<and> code = 2
          \<and> rest = [Ev_Create (c_str (utf8_path (k2k_dic_of w root))) h err,
                    Stderr No_input_text, Ev_Release h])"
      by blast
    then show ?thesis
    proof
      assume "h = 0 \<and> code = 4
          \<and> rest = [Ev_Create (c_str (utf8_path (k2k_dic_of w root))) h err,
                    Stderr (Create_failed err)]"
      with pre session(1) show ?thesis by auto
    next
      assume a: "h \<noteq> 0 \<and> code = 2
          \<and> rest = [Ev_Create (c_str (utf8_path (k2k_dic_of w root))) h err,
                    Stderr No_input_text, Ev_Release h]"
      with session(1) have tr: "tr = pre @ [Ev_Create (c_str (utf8_path (k2k_dic_of w root))) h err,
                    Stderr No_input_text, Ev_Release h]" by simp
      with a session(2) have "\<exists>pre dic h err. h \<noteq> 0 \<and> (\<forall>e \<in> set pre. is_loader_event e)
                  \<and> tr = pre @ [Ev_Create dic h err, Stderr No_input_text, Ev_Release h]"
        by blast
      with a tr show ?thesis by auto
    qed
  qed
qed

text \<open>Two blank lines on the standard input: the session is created, then released.\<close>

theorem no_input_halts_after_create_witness:
  "trim (read_all_stdin blank_lines_world) = []
   \<and> Stderr No_input_text \<in> set (snd (main blank_lines_world))
   \<and> fst (main blank_lines_world) = 2
   \<and> (\<exists>e \<in> set (snd (main blank_lines_world)). is_created e)
   \<and> (\<exists>pre dic h err. h \<noteq> 0
         \<and> snd (main blank_lines_world)
             = pre @ [Ev_Create dic h err, Stderr No_input_text, Ev_Release h])"
proof -
  have 1: "trim (read_all_stdin blank_lines_world) = []" by code_simp
  have 2: "main blank_lines_world =
       (2, [Ev_LoadLibrary ''C:/aq/aqk2k_win_413/aqk2k_win/lib64/AqKanji2Koe.dll'' 7,
            Ev_LoadLibrary ''C:/aq/aqtk1_win_200/aqtk1_win/lib64/f1/AquesTalk.dll'' 7,
            Ev_Create ''C:/aq/aqk2k_win_413/aqk2k_win/aq_dic'' 11 0,
            Stderr No_input_text, Ev_Release 11])"
    by code_simp
  have 3: "Stderr No_input_text \<in> set (snd (main blank_lines_world))"
    by (simp add: 2)
  from no_input_halts_after_create [OF 1 2] 1 3 show ?thesis
    by (simp only: 2 fst_conv snd_conv) blast
qed

subsection \<open>Claim C3\<close>

text \<open>
  Claim C3. \<open>FreeWave\<close> is to be called exactly once if and only if the synthesis call
  returned a non-null buffer, also when the reported size of that buffer is not positive.
  The code releases the buffer after the write and when the output file cannot be opened
  (second run below), but not on the exit of line 351: in the first run the synthesis call
  returns the non-null buffer 99 with size 0, the run ends with exit code 5, and the
  buffer is never released.
\<close>

theorem buffer_of_size_zero_not_released:
  "main empty_buffer_world =
     (5, [Ev_LoadLibrary ''C:/aq/aqk2k_win_413/aqk2k_win/lib64/AqKanji2Koe.dll'' 7,
          Ev_LoadLibrary ''C:/aq/aqtk1_win_200/aqtk1_win/lib64/f1/AquesTalk.dll'' 7,
          Ev_Create ''C:/aq/aqk2k_win_413/aqk2k_win/aq_dic'' 11 0,
          Ev_ConvertUtf8 11 ''line one'' 0, Ev_ConvertUtf8 11 ''line two'' 0,
          Ev_Release 11, Ev_SyntheUtf8 ''line one/line two'' 100 99 0,
          Stderr (Synthe_failed 0)])
   \<and> synthesized_buffer (Ev_SyntheUtf8 ''line one/line two'' 100 99 0)
   \<and> filter is_freewave (snd (main empty_buffer_world)) = []
   \<and> main unwritable_world =
     (6, [Ev_LoadLibrary ''C:/aq/aqk2k_win_413/aqk2k_win/lib64/AqKanji2Koe.dll'' 7,
          Ev_LoadLibrary ''C:/aq/aqtk1_win_200/aqtk1_win/lib64/f1/AquesTalk.dll'' 7,
          Ev_Create ''C:/aq/aqk2k_win_413/aqk2k_win/aq_dic'' 11 0,
          Ev_ConvertUtf8 11 ''line one'' 0, Ev_ConvertUtf8 11 ''line two'' 0,
          Ev_Release 11, Ev_SyntheUtf8 ''line one/line two'' 100 99 44,
          Ev_create_directories [], Ev_open_output ''out.wav'' False,
          Ev_FreeWave 99, Stderr Open_output_failed])"
  by code_simp

subsection \<open>Claim C4\<close>

text \<open>
  Claim C4, as stated: when a required path is missing, the diagnostic lists exactly the
  missing paths and no existing one. In the installation below only the voice's synthesis
  library is missing, and the diagnostic lists the text-to-phoneme library and the
  dictionary as well, which both exist.
\<close>

theorem missing_path_lists_present_ones:
  "main missing_voice_world =
     (2, [Stderr (Missing_SDK_files ''C:/aq/aqk2k_win_413/aqk2k_win/lib64/AqKanji2Koe.dll''
                    ''C:/aq/aqk2k_win_413/aqk2k_win/aq_dic''
                    ''C:/aq/aqtk1_win_200/aqtk1_win/lib64/f1/AquesTalk.dll'')])
   \<and> fs_exists missing_voice_world ''C:/aq/aqk2k_win_413/aqk2k_win/lib64/AqKanji2Koe.dll''
   \<and> fs_exists missing_voice_world ''C:/aq/aqk2k_win_413/aqk2k_win/aq_dic''
   \<and> \<not> fs_exists missing_voice_world ''C:/aq/aqtk1_win_200/aqtk1_win/lib64/f1/AquesTalk.dll''"
  by code_simp

text \<open>
  Claim C4, amended. In every run that reaches the pre-flight check (no help flag, a speed
  that parses, a root that resolves) with at least one of the three required paths
  missing, the program exits with status 2, its only effect is the diagnostic, which lists
  all three required paths in the fixed order library, dictionary, voice library, whether
  or not each exists, and no library load is attempted.
\<close>

theorem missing_sdk_files_reported:
  assumes "\<not> has_flag (args_of w) ''--help''" and "\<not> has_flag (args_of w) ''-h''"
    and "parse_speed (args_of w) = Some v"
    and "resolve_root w (args_of w) = Some root"
    and "\<not> fs_exists w (k2k_dll_of w root) \<or> \<not> fs_exists w (k2k_dic_of w root)
         \<or> \<not> fs_exists w (tk_dll_of w root (voice_of (args_of w)))"
  shows "main w =
           (2, [Stderr (Missing_SDK_files (utf8_path (k2k_dll_of w root))
                          (utf8_path (k2k_dic_of w root))
                          (utf8_path (tk_dll_of w root (voice_of (args_of w)))))])
       \<and> filter is_load (snd (main w)) = []"
proof -
  from assms(5) have "main w =
           (2, [Stderr (Missing_SDK_files (utf8_path (k2k_dll_of w root))
                          (utf8_path (k2k_dic_of w root))
                          (utf8_path (tk_dll_of w root (voice_of (args_of w)))))])"
    unfolding main_proceeds [OF assms(1-4)]
    by (auto simp: load_and_run_def Let_def)
  then show ?thesis by simp
qed

text \<open>The installation without the voice's library reaches the check and stops there.\<close>

theorem missing_sdk_files_reported_witness:
  "\<not> has_flag (args_of missing_voice_world) ''--help''
   \<and> \<not> has_flag (args_of missing_voice_world) ''-h''
   \<and> parse_speed (args_of missing_voice_world) = Some 100
   \<and> resolve_root missing_voice_world (args_of missing_voice_world) = Some ''C:/aq''
   \<and> \<not> fs_exists missing_voice_world
         (tk_dll_of missing_voice_world ''C:/aq'' (voice_of (args_of missing_voice_world)))
   \<and> main missing_voice_world =
       (2, [Stderr (Missing_SDK_files
                      (utf8_path (k2k_dll_of missing_voice_world ''C:/aq''))
                      (utf8_path (k2k_dic_of missing_voice_world ''C:/aq''))
                      (utf8_path (tk_dll_of missing_voice_world ''C:/aq''
                                    (voice_of (args_of missing_voice_world)))))])
   \<and> filter is_load (snd (main missing_voice_world)) = []"
proof -
  have 1: "\<not> has_flag (args_of missing_voice_world) ''--help''" by code_simp
  have 2: "\<not> has_flag (args_of missing_voice_world) ''-h''" by code_simp
  have 3: "parse_speed (args_of missing_voice_world) = Some 100" by code_simp
  have 4: "resolve_root missing_voice_world (args_of missing_voice_world) = Some ''C:/aq''"
    by code_simp
  have 5: "\<not> fs_exists missing_voice_world
         (tk_dll_of missing_voice_world ''C:/aq'' (voice_of (args_of missing_voice_world)))"
    by code_simp
  from 5 have 6: "\<not> fs_exists missing_voice_world (k2k_dll_of missing_voice_world ''C:/aq'')
      \<or> \<not> fs_exists missing_voice_world (k2k_dic_of missing_voice_world ''C:/aq'')
      \<or> \<not> fs_exists missing_voice_world
           (tk_dll_of missing_voice_world ''C:/aq'' (voice_of (args_of missing_voice_world)))"
    by blast
  from missing_sdk_files_reported [OF 1 2 3 4 6] 1 2 3 4 5 show ?thesis
    by blast
qed

subsection \<open>Claim C5\<close>

text \<open>
  Claim C5. When the line loop ends without a failed conversion, the assembled stream is
  the parts joined with one \<open>/\<close> between neighbours, where the parts are the results, not
  empty once trimmed, of converting the lines that are not empty once trimmed, in order.
  No part is empty, so for \<open>k \<ge> 1\<close> parts the stream holds the characters of the parts
  and \<open>k - 1\<close> separators, none of them leading, trailing or next to another; blank
  lines and empty results add neither a part nor a separator. Where no part contains the
  character \<open>/\<close> itself, the stream has exactly \<open>k - 1\<close> such characters, none at its
  ends and no two adjacent.
\<close>

theorem phoneme_stream_joined:
  assumes "convert_loop w us h 0 lines [] = (Inr koe_all, evs)"
  shows "koe_all = join_pause (converted_parts w us 0 lines)
     \<and> (\<forall>p \<in> set (converted_parts w us 0 lines). p \<noteq> [])
     \<and> (converted_parts w us 0 lines \<noteq> [] \<longrightarrow>
          koe_all \<noteq> []
          \<and> length koe_all = sum_list (map length (converted_parts w us 0 lines))
                               + (length (converted_parts w us 0 lines) - 1))
     \<and> (converted_parts w us 0 lines \<noteq> []
          \<and> (\<forall>p \<in> set (converted_parts w us 0 lines). CHR ''/'' \<notin> set p) \<longrightarrow>
          length (filter (\<lambda>c. c = CHR ''/'') koe_all) = length (converted_parts w us 0 lines) - 1
          \<and> hd koe_all \<noteq> CHR ''/'' \<and> last koe_all \<noteq> CHR ''/''
          \<and> \<not> (\<exists>i. Suc i < length koe_all \<and> koe_all ! i = CHR ''/''
                    \<and> koe_all ! Suc i = CHR ''/''))"
proof -
  let ?ps = "converted_parts w us 0 lines"
  have ne: "\<forall>p \<in> set ?ps. p \<noteq> []" by (rule converted_parts_nonempty)
  have koe: "koe_all = join_pause ?ps"
    using convert_loop_append [OF assms] foldl_join [OF ne, of "[]"] by simp
  have len: "koe_all \<noteq> [] \<and> length koe_all = sum_list (map length ?ps) + (length ?ps - 1)"
    if "?ps \<noteq> []"
    using that ne koe join_pause_nonempty [of ?ps] join_pause_length [of ?ps] by simp
  have sep: "length (filter (\<lambda>c. c = CHR ''/'') koe_all) = length ?ps - 1
          \<and> hd koe_all \<noteq> CHR ''/'' \<and> last koe_all \<noteq> CHR ''/''
          \<and> \<not> (\<exists>i. Suc i < length koe_all \<and> koe_all ! i = CHR ''/''
                    \<and> koe_all ! Suc i = CHR ''/'')"
    if "?ps \<noteq> []" and free: "\<forall>p \<in> set ?ps. CHR ''/'' \<notin> set p"
  proof -
    from ne free have both: "\<forall>p \<in> set ?ps. p \<noteq> [] \<and> CHR ''/'' \<notin> set p" by blast
    from join_pause_count [OF that] join_pause_hd [OF that(1) both]
      join_pause_last [OF that(1) both] join_pause_not_doubled [OF that(1) both]
    show ?thesis
      unfolding koe doubled_iff by blast
  qed
  from ne koe len sep show ?thesis by blast
qed

text \<open>Five lines, two of them blank and one converted to blanks: two parts, one
  separator.\<close>

theorem phoneme_stream_joined_witness:
  "convert_loop pausing_world False 11 0 [''one'', [], ''two'', ''   '', '' three''] []
     = (Inr ''one/three'',
        [Ev_ConvertUtf8 11 ''one'' 0, Ev_ConvertUtf8 11 ''two'' 0, Ev_ConvertUtf8 11 ''three'' 0])
   \<and> converted_parts pausing_world False 0 [''one'', [], ''two'', ''   '', '' three'']
       = [''one'', ''three'']
   \<and> ''one/three'' = join_pause [''one'', ''three'']
   \<and> length (filter (\<lambda>c. c = CHR ''/'') ''one/three'') = 1"
proof -
  have run: "convert_loop pausing_world False 11 0 [''one'', [], ''two'', ''   '', '' three''] []
     = (Inr ''one/three'',
        [Ev_ConvertUtf8 11 ''one'' 0, Ev_ConvertUtf8 11 ''two'' 0, Ev_ConvertUtf8 11 ''three'' 0])"
    by code_simp
  have parts: "converted_parts pausing_world False 0 [''one'', [], ''two'', ''   '', '' three'']
       = [''one'', ''three'']"
    by code_simp
  from phoneme_stream_joined [OF run] run parts show ?thesis
    by simp
qed

subsection \<open>Claim C6\<close>

text \<open>
  Claim C6. On every exit path after the session was created, \<open>Release\<close> is called exactly
  once, on the handle that \<open>Create\<close> returned and after that call; a run that creates no
  session releases none. A failed conversion of a line ends the run with exit code 4, and
  the run makes no synthesis call and opens no output file.
\<close>

theorem session_released_exactly_once:
  assumes "main w = (code, tr)"
  shows "length (filter is_release tr) = (if \<exists>e \<in> set tr. is_created e then 1 else 0)
       \<and> (\<forall>d h err. Ev_Create d h err \<in> set tr \<and> h \<noteq> 0 \<longrightarrow>
            (\<exists>pre mid post. tr = pre @ Ev_Create d h err # mid @ Ev_Release h # post))
       \<and> ((\<exists>e \<in> set tr. is_failed_convert e) \<longrightarrow>
            code = 4 \<and> (\<forall>e \<in> set tr. \<not> is_synthesize e \<and> \<not> is_output e))"
proof -
  from main_cases [OF assms] consider
    (early) pre d where "tr = pre @ [Stderr d]" "\<forall>e \<in> set pre. is_loader_event e"
  | (session) pre rest v out root where "tr = pre @ rest" "\<forall>e \<in> set pre. is_loader_event e"
      "convert_session w (use_sjis_of (args_of w)) (clamp_speed v) out (k2k_dic_of w root)
         = (code, rest)"
    by blast
  then show ?thesis
  proof cases
    case early
    from early(2) loader_event_other
    have pre: "\<forall>e \<in> set pre. \<not> is_created e \<and> \<not> is_release e \<and> \<not> is_failed_convert e"
      by blast
    then have "filter is_release pre = []" by (intro filter_none) blast
    with early(1) pre show ?thesis by auto
  next
    case session
    from session(2) loader_event_other
    have pre: "\<forall>e \<in> set pre. \<not> is_created e \<and> \<not> is_release e \<and> \<not> is_failed_convert e
                 \<and> \<not> is_synthesize e \<and> \<not> is_output e"
      by blast
    then have none: "filter is_release pre = []" by (intro filter_none) blast
    note d = convert_session_discipline [OF session(3)]
    have "length (filter is_release tr) = (if \<exists>e \<in> set tr. is_created e then 1 else 0)"
      using d(1) pre none session(1) by auto
    moreover have "\<exists>pre' mid post. tr = pre' @ Ev_Create dc h err # mid @ Ev_Release h # post"
      if "Ev_Create dc h err \<in> set tr" "h \<noteq> 0" for dc h err
    proof -
      from that pre session(1) have "Ev_Create dc h err \<in> set rest" by auto
      from d(2) [OF this that(2)] session(1) show ?thesis by blast
    qed
    moreover have "code = 4 \<and> (\<forall>e \<in> set tr. \<not> is_synthesize e \<and> \<not> is_output e)"
      if "\<exists>e \<in> set tr. is_failed_convert e"
    proof -
      from that pre session(1) have "\<exists>e \<in> set rest. is_failed_convert e" by auto
      from d(3) [OF this] pre session(1) show ?thesis by auto
    qed
    ultimately show ?thesis by blast
  qed
qed

text \<open>The second of two conversions fails: exit code 4, one release, no synthesis.\<close>

theorem session_released_exactly_once_witness:
  "(\<exists>e \<in> set (snd (main failing_second_world)). is_created e)
   \<and> (\<exists>e \<in> set (snd (main failing_second_world)). is_failed_convert e)
   \<and> length (filter is_release (snd (main failing_second_world))) = 1
   \<and> fst (main failing_second_world) = 4
   \<and> filter is_synthesize (snd (main failing_second_world)) = []
   \<and> filter is_output (snd (main failing_second_world)) = []"
proof -
  have run: "main failing_second_world =
    (4, [Ev_LoadLibrary ''C:/aq/aqk2k_win_413/aqk2k_win/lib64/AqKanji2Koe.dll'' 7,
         Ev_LoadLibrary ''C:/aq/aqtk1_win_200/aqtk1_win/lib64/f1/AquesTalk.dll'' 7,
         Ev_Create ''C:/aq/aqk2k_win_413/aqk2k_win/aq_dic'' 11 0,
         Ev_ConvertUtf8 11 ''line one'' 0, Ev_ConvertUtf8 11 ''line two'' 105,
         Stderr (Convert_failed 105), Ev_Release 11])"
    by code_simp
  from session_released_exactly_once [OF run] show ?thesis
    by (simp add: run)
qed

subsection \<open>Claim C7\<close>

text \<open>
  Claim C7. The speed given to the synthesis call is the parsed \<open>--speed\<close> value (100
  when the option is absent) clamped to the interval from 50 to 300: 49 becomes 50, 301
  becomes 300, and a value already in the interval is passed unchanged.
\<close>

theorem synthesis_speed_clamped:
  "clamp_speed 49 = 50 \<and> clamp_speed 301 = 300
   \<and> (\<forall>v. 50 \<le> v \<and> v \<le> 300 \<longrightarrow> clamp_speed v = v)
   \<and> (\<forall>v. 50 \<le> clamp_speed v \<and> clamp_speed v \<le> 300)
   \<and> (\<forall>e \<in> set (snd (main w)). \<forall>sp. synthesis_speed e = Some sp \<longrightarrow>
         (\<exists>v. parse_speed (args_of w) = Some v \<and> sp = clamp_speed v))"
proof -
  have "\<exists>v. parse_speed (args_of w) = Some v \<and> sp = clamp_speed v"
    if e: "e \<in> set (snd (main w))" and sp: "synthesis_speed e = Some sp" for e sp
  proof -
    obtain code tr where run: "main w = (code, tr)" by (cases "main w") auto
    from main_cases [OF run] consider
      (early) pre d where "tr = pre @ [Stderr d]" "\<forall>e \<in> set pre. is_loader_event e"
    | (session) pre rest v out root where "tr = pre @ rest"
        "\<forall>e \<in> set pre. is_loader_event e" "parse_speed (args_of w) = Some v"
        "convert_session w (use_sjis_of (args_of w)) (clamp_speed v) out (k2k_dic_of w root)
           = (code, rest)"
      by blast
    then show ?thesis
    proof cases
      case early
      with e sp run loader_event_other show ?thesis by fastforce
    next
      case session
      from session(2) loader_event_other have "\<forall>e \<in> set pre. synthesis_speed e = None"
        by blast
      with e sp run session(1) have "e \<in> set rest" by auto
      from convert_session_speed [OF session(4) this sp] session(3) show ?thesis by simp
    qed
  qed
  then show ?thesis
    by (simp add: clamp_speed_def Let_def)
qed

text \<open>Runs with \<open>--speed 49\<close> and \<open>--speed=301\<close> synthesise at 50 and at 300.\<close>

theorem synthesis_speed_clamped_witness:
  "parse_speed (args_of slow_world) = Some 49
   \<and> Ev_SyntheUtf8 ''line one/line two'' 50 99 44 \<in> set (snd (main slow_world))
   \<and> synthesis_speed (Ev_SyntheUtf8 ''line one/line two'' 50 99 44) = Some (clamp_speed 49)
   \<and> parse_speed (args_of fast_world) = Some 301
   \<and> Ev_SyntheUtf8 ''line one/line two'' 300 99 44 \<in> set (snd (main fast_world))
   \<and> synthesis_speed (Ev_SyntheUtf8 ''line one/line two'' 300 99 44) = Some (clamp_speed 301)"
proof -
  have 1: "parse_speed (args_of slow_world) = Some 49" by code_simp
  have 2: "Ev_SyntheUtf8 ''line one/line two'' 50 99 44 \<in> set (snd (main slow_world))"
    by code_simp
  have 3: "parse_speed (args_of fast_world) = Some 301" by code_simp
  have 4: "Ev_SyntheUtf8 ''line one/line two'' 300 99 44 \<in> set (snd (main fast_world))"
    by code_simp
  from synthesis_speed_clamped [of slow_world] 1 2 3 4 show ?thesis
    by simp
qed

subsection \<open>Claim C8\<close>

text \<open>
  Claim C8. Each loader returns a capability set exactly when the library loads and every
  required entry point resolves; the set then holds the module and the five resolved,
  non-null entry points. When the library loads and an entry point is missing, the loader
  returns nothing and has unloaded the library (\<open>FreeLibrary\<close> on the loaded module, once,
  after the load); when the library does not load, nothing is unloaded.
\<close>

theorem loaders_all_or_nothing:
  "(fst (load_kanji2koe w p) \<noteq> None \<longleftrightarrow>
      LoadLibraryW w p \<noteq> 0
      \<and> (\<forall>name \<in> set k2k_symbols. GetProcAddress w (LoadLibraryW w p) name \<noteq> 0))
   \<and> (\<forall>api. fst (load_kanji2koe w p) = Some api \<longrightarrow>
         k2k_mod api = LoadLibraryW w p \<and> k2k_mod api \<noteq> 0
         \<and> k2k_Create api = GetProcAddress w (k2k_mod api) ''AqKanji2Koe_Create''
         \<and> k2k_Release api = GetProcAddress w (k2k_mod api) ''AqKanji2Koe_Release''
         \<and> k2k_ConvertUtf8 api = GetProcAddress w (k2k_mod api) ''AqKanji2Koe_Convert_utf8''
         \<and> k2k_ConvertSjis api = GetProcAddress w (k2k_mod api) ''AqKanji2Koe_Convert_sjis''
         \<and> k2k_SetDevKey api = GetProcAddress w (k2k_mod api) ''AqKanji2Koe_SetDevKey''
         \<and> k2k_Create api \<noteq> 0 \<and> k2k_Release api \<noteq> 0 \<and> k2k_ConvertUtf8 api \<noteq> 0
         \<and> k2k_ConvertSjis api \<noteq> 0 \<and> k2k_SetDevKey api \<noteq> 0)
   \<and> snd (load_kanji2koe w p) =
        (if LoadLibraryW w p = 0 then [Ev_LoadLibrary p 0]
         else if fst (load_kanji2koe w p) = None
              then [Ev_LoadLibrary p (LoadLibraryW w p), Ev_FreeLibrary (LoadLibraryW w p)]
              else [Ev_LoadLibrary p (LoadLibraryW w p)])
   \<and> (fst (load_aquestalk w p) \<noteq> None \<longleftrightarrow>
      LoadLibraryW w p \<noteq> 0
      \<and> (\<forall>name \<in> set tk_symbols. GetProcAddress w (LoadLibraryW w p) name \<noteq> 0))
   \<and> (\<forall>api. fst (load_aquestalk w p) = Some api \<longrightarrow>
         tk_mod api = LoadLibraryW w p \<and> tk_mod api \<noteq> 0
         \<and> tk_Synthe api = GetProcAddress w (tk_mod api) ''AquesTalk_Synthe''
         \<and> tk_SyntheUtf8 api = GetProcAddress w (tk_mod api) ''AquesTalk_Synthe_Utf8''
         \<and> tk_FreeWave api = GetProcAddress w (tk_mod api) ''AquesTalk_FreeWave''
         \<and> tk_SetDevKey api = GetProcAddress w (tk_mod api) ''AquesTalk_SetDevKey''
         \<and> tk_SetUsrKey api = GetProcAddress w (tk_mod api) ''AquesTalk_SetUsrKey''
         \<and> tk_Synthe api \<noteq> 0 \<and> tk_SyntheUtf8 api \<noteq> 0 \<and> tk_FreeWave api \<noteq> 0
         \<and> tk_SetDevKey api \<noteq> 0 \<and> tk_SetUsrKey api \<noteq> 0)
   \<and> snd (load_aquestalk w p) =
        (if LoadLibraryW w p = 0 then [Ev_LoadLibrary p 0]
         else if fst (load_aquestalk w p) = None
              then [Ev_LoadLibrary p (LoadLibraryW w p), Ev_FreeLibrary (LoadLibraryW w p)]
              else [Ev_LoadLibrary p (LoadLibraryW w p)])"
proof -
  have k2k: "(fst (load_kanji2koe w p) \<noteq> None \<longleftrightarrow>
      LoadLibraryW w p \<noteq> 0
      \<and> (\<forall>name \<in> set k2k_symbols. GetProcAddress w (LoadLibraryW w p) name \<noteq> 0))"
    by (simp add: load_kanji2koe_def k2k_symbols_def Let_def)
  have k2k_api: "k2k_mod api = LoadLibraryW w p \<and> k2k_mod api \<noteq> 0
         \<and> k2k_Create api = GetProcAddress w (k2k_mod api) ''AqKanji2Koe_Create''
         \<and> k2k_Release api = GetProcAddress w (k2k_mod api) ''AqKanji2Koe_Release''
         \<and> k2k_ConvertUtf8 api = GetProcAddress w (k2k_mod api) ''AqKanji2Koe_Convert_utf8''
         \<and> k2k_ConvertSjis api = GetProcAddress w (k2k_mod api) ''AqKanji2Koe_Convert_sjis''
         \<and> k2k_SetDevKey api = GetProcAddress w (k2k_mod api) ''AqKanji2Koe_SetDevKey''
         \<and> k2k_Create api \<noteq> 0 \<and> k2k_Release api \<noteq> 0 \<and> k2k_ConvertUtf8 api \<noteq> 0
         \<and> k2k_ConvertSjis api \<noteq> 0 \<and> k2k_SetDevKey api \<noteq> 0"
    if "fst (load_kanji2koe w p) = Some api" for api
    using that by (auto simp: load_kanji2koe_def Let_def split: if_splits)
  have k2k_ev: "snd (load_kanji2koe w p) =
        (if LoadLibraryW w p = 0 then [Ev_LoadLibrary p 0]
         else if fst (load_kanji2koe w p) = None
              then [Ev_LoadLibrary p (LoadLibraryW w p), Ev_FreeLibrary (LoadLibraryW w p)]
              else [Ev_LoadLibrary p (LoadLibraryW w p)])"
    by (simp add: load_kanji2koe_def Let_def)
  have tk: "(fst (load_aquestalk w p) \<noteq> None \<longleftrightarrow>
      LoadLibraryW w p \<noteq> 0
      \<and> (\<forall>name \<in> set tk_symbols. GetProcAddress w (LoadLibraryW w p) name \<noteq> 0))"
    by (simp add: load_aquestalk_def tk_symbols_def Let_def)
  have tk_api: "tk_mod api = LoadLibraryW w p \<and> tk_mod api \<noteq> 0
         \<and> tk_Synthe api = GetProcAddress w (tk_mod api) ''AquesTalk_Synthe''
         \<and> tk_SyntheUtf8 api = GetProcAddress w (tk_mod api) ''AquesTalk_Synthe_Utf8''
         \<and> tk_FreeWave api = GetProcAddress w (tk_mod api) ''AquesTalk_FreeWave''
         \<and> tk_SetDevKey api = GetProcAddress w (tk_mod api) ''AquesTalk_SetDevKey''
         \<and> tk_SetUsrKey api = GetProcAddress w (tk_mod api) ''AquesTalk_SetUsrKey''
         \<and> tk_Synthe api \<noteq> 0 \<and> tk_SyntheUtf8 api \<noteq> 0 \<and> tk_FreeWave api \<noteq> 0
         \<and> tk_SetDevKey api \<noteq> 0 \<and> tk_SetUsrKey api \<noteq> 0"
    if "fst (load_aquestalk w p) = Some api" for api
    using that by (auto simp: load_aquestalk_def Let_def split: if_splits)
  have tk_ev: "snd (load_aquestalk w p) =
        (if LoadLibraryW w p = 0 then [Ev_LoadLibrary p 0]
         else if fst (load_aquestalk w p) = None
              then [Ev_LoadLibrary p (LoadLibraryW w p), Ev_FreeLibrary (LoadLibraryW w p)]
              else [Ev_LoadLibrary p (LoadLibraryW w p)])"
    by (simp add: load_aquestalk_def Let_def)
  from k2k k2k_api k2k_ev tk tk_api tk_ev show ?thesis by blast
qed

text \<open>A library without \<^verbatim>\<open>AqKanji2Koe_SetDevKey\<close> is loaded and unloaded again; the
  synthesis library of the same installation binds in full.\<close>

theorem loaders_all_or_nothing_witness:
  "LoadLibraryW half_bound_world ''k.dll'' = 7
   \<and> GetProcAddress half_bound_world 7 ''AqKanji2Koe_SetDevKey'' = 0
   \<and> load_kanji2koe half_bound_world ''k.dll''
       = (None, [Ev_LoadLibrary ''k.dll'' 7, Ev_FreeLibrary 7])
   \<and> fst (load_aquestalk half_bound_world ''t.dll'') \<noteq> None
   \<and> snd (load_aquestalk half_bound_world ''t.dll'') = [Ev_LoadLibrary ''t.dll'' 7]"
proof -
  have 1: "LoadLibraryW half_bound_world ''k.dll'' = 7
     \<and> GetProcAddress half_bound_world 7 ''AqKanji2Koe_SetDevKey'' = 0"
    by code_simp
  have 2: "''AqKanji2Koe_SetDevKey'' \<in> set k2k_symbols" by code_simp
  have 3: "LoadLibraryW half_bound_world ''t.dll'' = 7
     \<and> list_all (\<lambda>name. GetProcAddress half_bound_world 7 name \<noteq> 0) tk_symbols"
    by code_simp
  from loaders_all_or_nothing [of half_bound_world "''k.dll''"]
    loaders_all_or_nothing [of half_bound_world "''t.dll''"] 1 2 3
  show ?thesis
    by (auto simp: list_all_iff prod_eq_iff)
qed

subsection \<open>Claim C9\<close>

text \<open>
  Claim C9. Only the three exact strings \<open>sjis\<close>, \<open>shiftjis\<close> and \<open>cp932\<close> given to
  \<open>--encoding\<close> select the legacy entry points. Every other value, a misspelling such as
  \<open>utf-8\<close> included, is not rejected: the run goes on into the pipeline with the UTF-8
  entry points, and calls no legacy entry point.
\<close>

theorem unknown_encoding_selects_utf8:
  assumes "get_arg_value (args_of w) ''--encoding'' = Some enc"
  shows "use_sjis_of (args_of w) = (enc = ''sjis'' \<or> enc = ''shiftjis'' \<or> enc = ''cp932'')
     \<and> (enc \<noteq> ''sjis'' \<and> enc \<noteq> ''shiftjis'' \<and> enc \<noteq> ''cp932'' \<longrightarrow>
           (\<forall>e \<in> set (snd (main w)). \<not> is_legacy_call e)
         \<and> (\<forall>v root. \<not> has_flag (args_of w) ''--help'' \<and> \<not> has_flag (args_of w) ''-h''
                \<and> parse_speed (args_of w) = Some v \<and> resolve_root w (args_of w) = Some root \<longrightarrow>
              main w = load_and_run w False (clamp_speed v) (voice_of (args_of w))
                         (dev_key_of w (args_of w)) (usr_key_of w (args_of w))
                         (out_path_of w (args_of w)) root))
     \<and> (enc = ''sjis'' \<or> enc = ''shiftjis'' \<or> enc = ''cp932'' \<longrightarrow>
           (\<forall>e \<in> set (snd (main w)). \<not> is_utf8_call e))"
proof -
  have sel: "use_sjis_of (args_of w) = (enc = ''sjis'' \<or> enc = ''shiftjis'' \<or> enc = ''cp932'')"
    using assms by (simp add: use_sjis_of_def encoding_of_def value_or_def)
  have legacy: "\<forall>e \<in> set (snd (main w)). \<not> is_legacy_call e" if "\<not> use_sjis_of (args_of w)"
    using that main_encoding [of _ w] by blast
  have utf8: "\<forall>e \<in> set (snd (main w)). \<not> is_utf8_call e" if "use_sjis_of (args_of w)"
    using that main_encoding [of _ w] by blast
  have run: "main w = load_and_run w False (clamp_speed v) (voice_of (args_of w))
                         (dev_key_of w (args_of w)) (usr_key_of w (args_of w))
                         (out_path_of w (args_of w)) root"
    if "\<not> use_sjis_of (args_of w)" "\<not> has_flag (args_of w) ''--help''"
      "\<not> has_flag (args_of w) ''-h''" "parse_speed (args_of w) = Some v"
      "resolve_root w (args_of w) = Some root" for v root
    using main_proceeds [OF that(2-5)] that(1) by simp
  show ?thesis
  proof (intro conjI impI allI ballI)
    show "use_sjis_of (args_of w) = (enc = ''sjis'' \<or> enc = ''shiftjis'' \<or> enc = ''cp932'')"
      by (rule sel)
  next
    fix e
    assume "enc \<noteq> ''sjis'' \<and> enc \<noteq> ''shiftjis'' \<and> enc \<noteq> ''cp932''"
      and "e \<in> set (snd (main w))"
    with sel legacy show "\<not> is_legacy_call e" by blast
  next
    fix v root
    assume "enc \<noteq> ''sjis'' \<and> enc \<noteq> ''shiftjis'' \<and> enc \<noteq> ''cp932''"
      and "\<not> has_flag (args_of w) ''--help'' \<and> \<not> has_flag (args_of w) ''-h''
           \<and> parse_speed (args_of w) = Some v \<and> resolve_root w (args_of w) = Some root"
    with sel run [of v root]
    show "main w = load_and_run w False (clamp_speed v) (voice_of (args_of w))
                         (dev_key_of w (args_of w)) (usr_key_of w (args_of w))
                         (out_path_of w (args_of w)) root"
      by blast
  next
    fix e
    assume "enc = ''sjis'' \<or> enc = ''shiftjis'' \<or> enc = ''cp932''"
      and "e \<in> set (snd (main w))"
    with sel utf8 show "\<not> is_utf8_call e" by blast
  qed
qed

text \<open>With \<open>--encoding utf-8\<close> the run succeeds through the UTF-8 entry points; with
  \<open>--encoding=cp932\<close> it goes through the legacy ones.\<close>

theorem unknown_encoding_selects_utf8_witness:
  "get_arg_value (args_of misspelt_encoding_world) ''--encoding'' = Some ''utf-8''
   \<and> \<not> use_sjis_of (args_of misspelt_encoding_world)
   \<and> filter is_legacy_call (snd (main misspelt_encoding_world)) = []
   \<and> fst (main misspelt_encoding_world) = 0
   \<and> Ev_ConvertUtf8 11 ''line one'' 0 \<in> set (snd (main misspelt_encoding_world))
   \<and> get_arg_value (args_of cp932_world) ''--encoding'' = Some ''cp932''
   \<and> use_sjis_of (args_of cp932_world)
   \<and> filter is_utf8_call (snd (main cp932_world)) = []
   \<and> Ev_ConvertSjis 11 ''line one'' 0 \<in> set (snd (main cp932_world))"
proof -
  have 1: "get_arg_value (args_of misspelt_encoding_world) ''--encoding'' = Some ''utf-8''"
    by code_simp
  have 2: "get_arg_value (args_of cp932_world) ''--encoding'' = Some ''cp932''"
    by code_simp
  have 3: "fst (main misspelt_encoding_world) = 0
     \<and> Ev_ConvertUtf8 11 ''line one'' 0 \<in> set (snd (main misspelt_encoding_world))
     \<and> Ev_ConvertSjis 11 ''line one'' 0 \<in> set (snd (main cp932_world))"
    by code_simp
  from unknown_encoding_selects_utf8 [OF 1] unknown_encoding_selects_utf8 [OF 2] 1 2 3
  show ?thesis
    by (simp add: filter_empty_conv)
qed

subsection \<open>Claim C10\<close>

text \<open>
  Claim C10. For every input string, \<open>split_lines\<close> returns at least one element (the
  empty string gives one empty line), no returned line contains a line feed or a carriage
  return, and carriage returns are removed wherever they stand: the lines, concatenated,
  are the input without its line feeds and carriage returns, and there is one line more
  than there are line feeds.
\<close>

theorem split_lines_shape:
  "split_lines s \<noteq> []
   \<and> split_lines [] = [[]]
   \<and> length (split_lines s) = Suc (length (filter (\<lambda>c. c = LF) s))
   \<and> (\<forall>l \<in> set (split_lines s). LF \<notin> set l \<and> CR \<notin> set l)
   \<and> concat (split_lines s) = filter (\<lambda>c. c \<noteq> CR \<and> c \<noteq> LF) s"
  unfolding split_lines_def
  using split_loop_clean [of _ s "[]" "[]"]
  by (simp add: split_loop_nonempty split_loop_length split_loop_concat)

text \<open>A carriage return inside a line and one after a line feed are both removed.\<close>

theorem split_lines_shape_witness:
  "split_lines (''a'' @ [CR] @ ''b'' @ [LF] @ [CR] @ ''c'') = [''ab'', ''c'']
   \<and> ''ab'' \<in> set (split_lines (''a'' @ [CR] @ ''b'' @ [LF] @ [CR] @ ''c''))
   \<and> LF \<notin> set ''ab'' \<and> CR \<notin> set ''ab''
   \<and> length (split_lines (''a'' @ [CR] @ ''b'' @ [LF] @ [CR] @ ''c'')) = 2
   \<and> concat (split_lines (''a'' @ [CR] @ ''b'' @ [LF] @ [CR] @ ''c'')) = ''abc''"
  using split_lines_shape [of "''a'' @ [CR] @ ''b'' @ [LF] @ [CR] @ ''c''"]
  by (simp add: split_lines_def CR_def LF_def)

end
